theory Spec2Isabelle
  imports Main "HOL-Library.Word"
begin

unbundle bit_operations_syntax

section \<open>Bytes, files and the struct module\<close>

text \<open>
  A dump file is its sequence of bytes. Python integers are unbounded, so every address,
  offset and length of the program is an \<open>int\<close>; only the bytes of a file have a width.
\<close>

type_synonym byte = "8 word"

text \<open>
  The exceptions the program can meet. \<open>OutsideRangesException\<close> is the class the module
  declares; its two arguments are the position and the run start that its message prints.
  The others are the interpreter's: \<open>StructError\<close> is \<open>struct.error\<close> (a buffer of the
  wrong size), \<open>UnboundLocalError\<close> a loop variable read after a loop that never ran,
  \<open>OSError\<close> a seek to a negative offset, \<open>ValueError\<close> a read length below \<open>-1\<close>,
  \<open>UnicodeDecodeError\<close> a byte above 127 decoded as ASCII, \<open>OverflowError\<close> a date after
  the year 9999.
\<close>

datatype error =
    OutsideRangesException int int
  | StructError
  | UnboundLocalError
  | OSError
  | ValueError
  | UnicodeDecodeError
  | OverflowError

text \<open>Sequencing of fallible steps: the first exception ends the computation.\<close>

definition rbind :: "error + 'a \<Rightarrow> ('a \<Rightarrow> error + 'b) \<Rightarrow> error + 'b" where
  "rbind m f = (case m of Inl e \<Rightarrow> Inl e | Inr x \<Rightarrow> f x)"

text \<open>The py_slice \<open>xs[a:b]\<close> for \<open>0 \<le> a \<le> b\<close>: it is cut short at the end of \<open>xs\<close>.\<close>

definition py_slice :: "'a list \<Rightarrow> nat \<Rightarrow> nat \<Rightarrow> 'a list" where
  "py_slice xs a b = take (b - a) (drop a xs)"

text \<open>
  \<open>mem.seek(pos)\<close> followed by \<open>mem.read(length)\<close> on a file opened with \<open>"rb"\<close>: a
  negative offset is refused, a position past the end gives no bytes, \<open>-1\<close> as length
  reads up to the end. Offsets are not bounded by the platform's file-offset type.
\<close>

definition file_read :: "byte list \<Rightarrow> int \<Rightarrow> int \<Rightarrow> error + byte list" where
  "file_read f pos len =
     (if pos < 0 then Inl OSError
      else if len < - 1 then Inl ValueError
      else if len = - 1 then Inr (drop (nat pos) f)
      else Inr (take (nat len) (drop (nat pos) f)))"

text \<open>\<open>struct.Struct("<L").unpack\<close>: exactly four bytes, little-endian, unsigned.\<close>

fun unpack_L :: "byte list \<Rightarrow> error + int" where
  "unpack_L [b0, b1, b2, b3] =
     Inr (uint b0 + 256 * uint b1 + 65536 * uint b2 + 16777216 * uint b3)"
| "unpack_L _ = Inl StructError"

text \<open>\<open>struct.Struct("<2L").unpack\<close> (and \<open>"<LL"\<close>): exactly eight bytes, two values.\<close>

definition unpack_2L :: "byte list \<Rightarrow> error + (int \<times> int)" where
  "unpack_2L bs =
     (if length bs = 8
      then rbind (unpack_L (take 4 bs)) (\<lambda>a. rbind (unpack_L (drop 4 bs)) (\<lambda>b. Inr (a, b)))
      else Inl StructError)"

text \<open>\<open>struct.pack("<L", x)\<close> for \<open>0 \<le> x < 2 ^ 32\<close>, used to build synthetic images.\<close>

definition pack_L :: "int \<Rightarrow> byte list" where
  "pack_L x = [word_of_int x, word_of_int (x div 256), word_of_int (x div 65536),
               word_of_int (x div 16777216)]"

section \<open>Dumps\<close>

datatype archclass = ArchX86 | ArchX86PAE

datatype dumpclass = RawDump | CrashDump

text \<open>
  An instance of \<open>RawDump\<close> or \<open>CrashDump\<close>: the attributes of \<open>AbstractDump\<close>, the open
  file \<open>mem\<close> and, for a \<open>CrashDump\<close>, the list \<open>ranges\<close> of triples
  \<open>(fpos, start_addr, length)\<close>.
\<close>

record dump =
  dirbase :: int
  process_head :: int
  arch :: archclass
  cls :: dumpclass
  mem :: "byte list"
  ranges :: "(int \<times> int \<times> int) list"

definition RawDump_init :: "byte list \<Rightarrow> archclass \<Rightarrow> dump" where
  "RawDump_init file archc =
     \<lparr>dirbase = 0, process_head = 0, arch = archc, cls = RawDump, mem = file, ranges = []\<rparr>"

definition RawDump_read :: "dump \<Rightarrow> int \<Rightarrow> int \<Rightarrow> error + byte list" where
  "RawDump_read d pos len = file_read (mem d) pos len"

text \<open>
  The loop of \<open>CrashDump.__init__\<close> over \<open>range(1, nruns + 1)\<close>: run \<open>i\<close> is unpacked from
  \<open>runs[i*8: i*8 + 8]\<close>, and \<open>fpos\<close> advances by the run's length in bytes.
\<close>

function parse_runs ::
  "byte list \<Rightarrow> int \<Rightarrow> int \<Rightarrow> int \<Rightarrow> (int \<times> int \<times> int) list \<Rightarrow> error + (int \<times> int \<times> int) list"
where
  "parse_runs runs nruns i fpos acc =
     (if i < nruns + 1
      then (case unpack_2L (py_slice runs (nat (i * 8)) (nat (i * 8 + 8))) of
              Inl e \<Rightarrow> Inl e
            | Inr (start_addr, len) \<Rightarrow>
                parse_runs runs nruns (i + 1) (fpos + len * 4096)
                  (acc @ [(fpos, start_addr * 4096, len * 4096)]))
      else Inr acc)"
  by pat_completeness auto
termination
  by (relation "measure (\<lambda>(runs, nruns, i, fpos, acc). nat (nruns + 1 - i))") auto

declare parse_runs.simps [simp del]

definition CrashDump_init :: "byte list \<Rightarrow> archclass \<Rightarrow> error + dump" where
  "CrashDump_init file archc =
     (let raw_header = take 4096 file in
      rbind (unpack_L (py_slice raw_header 0x10 0x14)) (\<lambda>dbase.
      rbind (unpack_L (py_slice raw_header 0x1c 0x20)) (\<lambda>phead.
      let runs = py_slice raw_header 0x64 0x320 in
      rbind (unpack_2L (py_slice runs 0 8)) (\<lambda>(nruns, last_page).
      rbind (parse_runs runs nruns 1 (push_bit 12 1) []) (\<lambda>rs.
      Inr \<lparr>dirbase = dbase, process_head = phead, arch = archc, cls = CrashDump,
           mem = file, ranges = rs\<rparr>)))))"

text \<open>
  The \<open>for\<close> loop of \<open>CrashDump.read\<close>. The third argument is the current binding of the
  loop variables \<open>(fpos, saddr, rlength)\<close>, \<open>None\<close> before the first iteration; the loop
  ends by the \<open>raise\<close>, by the \<open>break\<close>, or by exhausting the list, and in the last case
  the variables keep the last run.
\<close>

fun read_scan ::
  "int \<Rightarrow> (int \<times> int \<times> int) list \<Rightarrow> (int \<times> int \<times> int) option \<Rightarrow> error + (int \<times> int \<times> int) option"
where
  "read_scan pos [] cur = Inr cur"
| "read_scan pos ((fpos, saddr, rlength) # rs) cur =
     (if saddr > pos then Inl (OutsideRangesException pos saddr)
      else if saddr \<le> pos \<and> pos \<le> saddr + rlength then Inr (Some (fpos, saddr, rlength))
      else read_scan pos rs (Some (fpos, saddr, rlength)))"

definition CrashDump_read :: "dump \<Rightarrow> int \<Rightarrow> int \<Rightarrow> error + byte list" where
  "CrashDump_read d pos len =
     (case read_scan pos (ranges d) None of
        Inl e \<Rightarrow> Inl e
      | Inr None \<Rightarrow> Inl UnboundLocalError
      | Inr (Some (fpos, saddr, rlength)) \<Rightarrow> file_read (mem d) (fpos + (pos - saddr)) len)"

text \<open>\<open>dump.read\<close>, dispatched on the class of the dump.\<close>

definition read :: "dump \<Rightarrow> int \<Rightarrow> int \<Rightarrow> error + byte list" where
  "read d pos len =
     (case cls d of RawDump \<Rightarrow> RawDump_read d pos len | CrashDump \<Rightarrow> CrashDump_read d pos len)"

section \<open>Address translation\<close>

definition ArchX86_parse_vaddr :: "int \<Rightarrow> int \<times> int \<times> int" where
  "ArchX86_parse_vaddr addr =
     (drop_bit 22 (addr AND 0xffc00000), drop_bit 12 (addr AND 0x003ff000), addr AND 0x00000fff)"

definition ArchX86PAE_parse_vaddr :: "int \<Rightarrow> int \<times> int \<times> int \<times> int" where
  "ArchX86PAE_parse_vaddr addr =
     (drop_bit 30 (addr AND 0xc0000000), drop_bit 21 (addr AND 0x3fe00000),
      drop_bit 12 (addr AND 0x001ff000), addr AND 0x00000fff)"

text \<open>
  \<open>vtop\<close> of the two architectures. The \<open>debug\<close> flag only prints and is left out: the
  value returned does not depend on it.
\<close>

definition ArchX86_vtop :: "dump \<Rightarrow> int \<Rightarrow> error + int" where
  "ArchX86_vtop m addr =
     (case ArchX86_parse_vaddr addr of (pdi, pti, offset) \<Rightarrow>
      rbind (read m (dirbase m + pdi * 4) 4) (\<lambda>raw1.
      rbind (unpack_L raw1) (\<lambda>pde0.
      let pde = pde0 AND 0xfffff000 in
      rbind (read m (pde + pti * 4) 4) (\<lambda>raw2.
      rbind (unpack_L raw2) (\<lambda>pte0.
      let pte = pte0 AND 0xfffff000 in
      Inr (pte + offset))))))"

definition ArchX86PAE_vtop :: "dump \<Rightarrow> int \<Rightarrow> error + int" where
  "ArchX86PAE_vtop m addr =
     (case ArchX86PAE_parse_vaddr addr of (pdpi, pdi, pti, offset) \<Rightarrow>
      rbind (read m (dirbase m + pdpi * 8) 4) (\<lambda>raw0.
      rbind (unpack_L raw0) (\<lambda>pdpe0.
      let pdpe = pdpe0 AND 0xfffff000 in
      rbind (read m (pdpe + pdi * 8) 4) (\<lambda>raw1.
      rbind (unpack_L raw1) (\<lambda>pde0.
      let pde = pde0 AND 0xfffff000 in
      rbind (read m (pde + pti * 8) 4) (\<lambda>raw2.
      rbind (unpack_L raw2) (\<lambda>pte0.
      let pte = pte0 AND 0xfffff000 in
      Inr (pte + offset))))))))"

text \<open>\<open>dump.vtop\<close>, dispatched on the architecture the dump was opened with.\<close>

definition vtop :: "dump \<Rightarrow> int \<Rightarrow> error + int" where
  "vtop d addr =
     (case arch d of ArchX86 \<Rightarrow> ArchX86_vtop d addr | ArchX86PAE \<Rightarrow> ArchX86PAE_vtop d addr)"

section \<open>Conversion of a crash dump to a raw image\<close>

definition zpage :: "byte list" where
  "zpage = replicate 4096 0"

text \<open>The loop \<open>while fpos < saddr\<close> of \<open>crash_to_raw\<close>: one page of zeros per round.\<close>

function zero_fill :: "int \<Rightarrow> int \<Rightarrow> byte list \<Rightarrow> int \<times> byte list" where
  "zero_fill fpos saddr raw =
     (if fpos < saddr then zero_fill (fpos + 4096) saddr (raw @ zpage) else (fpos, raw))"
  by pat_completeness auto
termination
  by (relation "measure (\<lambda>(fpos, saddr, raw). nat (saddr - fpos))") auto

declare zero_fill.simps [simp del]

text \<open>The loop \<open>for i in range(length >> 12)\<close>: each page is read through the dump.\<close>

fun copy_pages :: "dump \<Rightarrow> int \<Rightarrow> int list \<Rightarrow> int \<Rightarrow> byte list \<Rightarrow> error + (int \<times> byte list)" where
  "copy_pages crash saddr [] fpos raw = Inr (fpos, raw)"
| "copy_pages crash saddr (i # is) fpos raw =
     (case read crash (saddr + push_bit 12 i) 4096 of
        Inl e \<Rightarrow> Inl e
      | Inr page \<Rightarrow> copy_pages crash saddr is (fpos + 4096) (raw @ page))"

fun crash_to_raw_loop ::
  "dump \<Rightarrow> (int \<times> int \<times> int) list \<Rightarrow> int \<Rightarrow> byte list \<Rightarrow> error + byte list"
where
  "crash_to_raw_loop crash [] fpos raw = Inr raw"
| "crash_to_raw_loop crash ((_, saddr, len) # rs) fpos raw =
     (case zero_fill fpos saddr raw of (fpos1, raw1) \<Rightarrow>
        (case copy_pages crash saddr [0 .. drop_bit 12 len - 1] fpos1 raw1 of
           Inl e \<Rightarrow> Inl e
         | Inr (fpos2, raw2) \<Rightarrow> crash_to_raw_loop crash rs fpos2 raw2))"

text \<open>
  \<open>crash_to_raw(crash, raw)\<close>, called with a \<open>CrashDump\<close>: \<open>raw\<close> is the content of the
  output file so far, with the file position at its end; the result is its content
  afterwards.
\<close>

definition crash_to_raw :: "dump \<Rightarrow> byte list \<Rightarrow> error + byte list" where
  "crash_to_raw crash raw = crash_to_raw_loop crash (ranges crash) 0 raw"

section \<open>Windows timestamps\<close>

text \<open>
  The part of Python's \<open>datetime\<close> module that \<open>wintime\<close> uses: the proleptic Gregorian
  calendar by day ordinals (day 1 is 0001-01-01), the range checks of the constructors,
  and the addition of a whole number of days.
\<close>

record datetime =
  year :: int
  month :: int
  day :: int
  hour :: int
  minute :: int
  second :: int
  microsecond :: int

definition is_leap :: "int \<Rightarrow> bool" where
  "is_leap y = (y mod 4 = 0 \<and> (y mod 100 \<noteq> 0 \<or> y mod 400 = 0))"

definition days_before_year :: "int \<Rightarrow> int" where
  "days_before_year y0 = (let y = y0 - 1 in y * 365 + y div 4 - y div 100 + y div 400)"

definition DAYS_IN_MONTH :: "int list" where
  "DAYS_IN_MONTH = [- 1, 31, 28, 31, 30, 31, 30, 31, 31, 30, 31, 30, 31]"

definition DAYS_BEFORE_MONTH :: "int list" where
  "DAYS_BEFORE_MONTH = [- 1, 0, 31, 59, 90, 120, 151, 181, 212, 243, 273, 304, 334]"

definition days_in_month :: "int \<Rightarrow> int \<Rightarrow> int" where
  "days_in_month y m = (if m = 2 \<and> is_leap y then 29 else DAYS_IN_MONTH ! nat m)"

definition days_before_month :: "int \<Rightarrow> int \<Rightarrow> int" where
  "days_before_month y m = DAYS_BEFORE_MONTH ! nat m + (if m > 2 \<and> is_leap y then 1 else 0)"

definition ymd2ord :: "int \<Rightarrow> int \<Rightarrow> int \<Rightarrow> int" where
  "ymd2ord y m d = days_before_year y + days_before_month y m + d"

definition ord2ymd :: "int \<Rightarrow> int \<times> int \<times> int" where
  "ord2ymd n0 =
     (let n = n0 - 1;
          n400 = n div 146097; n = n mod 146097;
          y = n400 * 400 + 1;
          n100 = n div 36524; n = n mod 36524;
          n4 = n div 1461; n = n mod 1461;
          n1 = n div 365; n = n mod 365;
          y = y + n100 * 100 + n4 * 4 + n1
      in if n1 = 4 \<or> n100 = 4 then (y - 1, 12, 31)
         else
           let leapyear = (n1 = 3 \<and> (n4 \<noteq> 24 \<or> n100 = 3));
               m = drop_bit 5 (n + 50);
               preceding = DAYS_BEFORE_MONTH ! nat m + (if m > 2 \<and> leapyear then 1 else 0)
           in if preceding > n
              then (y, m - 1,
                    n - (preceding - (DAYS_IN_MONTH ! nat (m - 1)
                                        + (if m - 1 = 2 \<and> leapyear then 1 else 0))) + 1)
              else (y, m, n - preceding + 1))"

text \<open>\<open>datetime.timedelta(days)\<close>: at most 999999999 days in either direction.\<close>

definition timedelta :: "int \<Rightarrow> error + int" where
  "timedelta days = (if \<bar>days\<bar> > 999999999 then Inl OverflowError else Inr days)"

text \<open>\<open>datetime.datetime(y, m, d, hh, mm, ss, us)\<close> with its range checks.\<close>

definition datetime_new :: "int \<Rightarrow> int \<Rightarrow> int \<Rightarrow> int \<Rightarrow> int \<Rightarrow> int \<Rightarrow> int \<Rightarrow> error + datetime" where
  "datetime_new y m d hh mm ss us =
     (if 1 \<le> y \<and> y \<le> 9999 \<and> 1 \<le> m \<and> m \<le> 12 \<and> 1 \<le> d \<and> d \<le> days_in_month y m \<and>
         0 \<le> hh \<and> hh \<le> 23 \<and> 0 \<le> mm \<and> mm \<le> 59 \<and> 0 \<le> ss \<and> ss \<le> 59 \<and>
         0 \<le> us \<and> us \<le> 999999
      then Inr \<lparr>year = y, month = m, day = d, hour = hh, minute = mm, second = ss,
                microsecond = us\<rparr>
      else Inl ValueError)"

text \<open>
  \<open>dt + td\<close> for a \<open>timedelta\<close> of whole days: the ordinal of the date moves by the days,
  the time of day stays, and a result outside the years 1 to 9999 is an \<open>OverflowError\<close>.
\<close>

definition datetime_add :: "datetime \<Rightarrow> int \<Rightarrow> error + datetime" where
  "datetime_add dt td =
     (let n = ymd2ord (year dt) (month dt) (day dt) + td
      in if 0 < n \<and> n \<le> 3652059
         then (case ord2ymd n of (y, m, d) \<Rightarrow> Inr (dt\<lparr>year := y, month := m, day := d\<rparr>))
         else Inl OverflowError)"

definition wintime :: "byte list \<Rightarrow> error + datetime option" where
  "wintime raw =
     rbind (unpack_2L raw) (\<lambda>(lo, hi).
       let val = push_bit 32 hi + lo;
           tics = val;
           days = tics div 864000000000;
           rem0 = tics - days * 864000000000;
           hours = rem0 div 36000000000;
           rem1 = rem0 - hours * 36000000000;
           minutes = rem1 div 600000000;
           rem2 = rem1 - minutes * 600000000;
           seconds = rem2 div 10000000;
           rem3 = rem2 - seconds * 10000000;
           microseconds = rem3 div 100
       in rbind (timedelta days) (\<lambda>td.
          rbind (datetime_new 1601 1 1 hours minutes seconds microseconds) (\<lambda>dt.
          rbind (datetime_add dt td) (\<lambda>retval.
          Inr (if val = 0 then None else Some retval)))))"

section \<open>Kernel structures\<close>

record ListEntry =
  flink :: int
  blink :: int

text \<open>\<open>DispatcherHeader\<close> keeps nothing of its bytes, so \<open>KProcess\<close> has two fields left.\<close>

record KProcess =
  profile_list_head :: ListEntry
  directory_table_base :: int

record EProcess =
  base_addr :: int
  pcb :: KProcess
  active_process_links :: ListEntry
  image_name :: string
  pid :: int
  create_time :: "datetime option"
  exit_time :: "datetime option"

definition ListEntry_init :: "byte list \<Rightarrow> error + ListEntry" where
  "ListEntry_init rawdata =
     rbind (unpack_2L rawdata) (\<lambda>(f, b). Inr \<lparr>flink = f, blink = b\<rparr>)"

definition KProcess_init :: "byte list \<Rightarrow> error + KProcess" where
  "KProcess_init rawdata =
     rbind (ListEntry_init (py_slice rawdata 0x10 0x18)) (\<lambda>plh.
     rbind (unpack_L (py_slice rawdata 0x18 0x1c)) (\<lambda>dtb.
     Inr \<lparr>profile_list_head = plh, directory_table_base = dtb\<rparr>))"

text \<open>\<open>struct.unpack("<15s", b)\<close>: exactly fifteen bytes, returned as they are.\<close>

definition unpack_15s :: "byte list \<Rightarrow> error + byte list" where
  "unpack_15s bs = (if length bs = 15 then Inr bs else Inl StructError)"

text \<open>\<open>b.decode("ascii")\<close>: every byte must be below 128.\<close>

definition decode_ascii :: "byte list \<Rightarrow> error + string" where
  "decode_ascii bs =
     (if list_all (\<lambda>b. uint b < 128) bs then Inr (map (\<lambda>b. char_of (uint b)) bs)
      else Inl UnicodeDecodeError)"

text \<open>\<open>(image_name.replace(b"\x00", b"")).decode("ascii")\<close>.\<close>

definition decode_image_name :: "byte list \<Rightarrow> error + string" where
  "decode_image_name bs = decode_ascii (filter (\<lambda>b. b \<noteq> 0) bs)"

definition EProcess_init :: "byte list \<Rightarrow> int \<Rightarrow> error + EProcess" where
  "EProcess_init rawdata base =
     rbind (KProcess_init (py_slice rawdata 0x0 0x98)) (\<lambda>kp.
     rbind (ListEntry_init (py_slice rawdata 0xb8 (0xb8 + 8))) (\<lambda>links.
     rbind (unpack_15s (py_slice rawdata 0x16c (0x16c + 15))) (\<lambda>name0.
     rbind (decode_image_name name0) (\<lambda>name.
     rbind (unpack_L (py_slice rawdata 0xb4 0xb8)) (\<lambda>p.
     rbind (wintime (py_slice rawdata 0xa0 0xa8)) (\<lambda>ct.
     rbind (wintime (py_slice rawdata 0xa8 0xb0)) (\<lambda>et.
     Inr \<lparr>base_addr = base, pcb = kp, active_process_links = links, image_name = name,
          pid = p, create_time = ct, exit_time = et\<rparr>)))))))"

section \<open>The process list\<close>

text \<open>
  The two expressions of \<open>pslist\<close> that fetch a structure through the dump:
  \<open>ListEntry(dump.read(dump.vtop(pslist_head), 8))\<close> and
  \<open>EProcess(dump.read(dump.vtop(flink - 0xb8), psize), flink - 0xb8)\<close>.
\<close>

definition read_list_head :: "dump \<Rightarrow> error + ListEntry" where
  "read_list_head d =
     rbind (vtop d (process_head d)) (\<lambda>pa. rbind (read d pa 8) ListEntry_init)"

definition read_process :: "dump \<Rightarrow> int \<Rightarrow> error + EProcess" where
  "read_process d lnk =
     rbind (vtop d (lnk - 0xb8)) (\<lambda>pa.
     rbind (read d pa 0x2d8) (\<lambda>rawdata. EProcess_init rawdata (lnk - 0xb8)))"

text \<open>
  The \<open>while\<close> loop of \<open>pslist\<close>. Nothing bounds the number of rounds, so the loop is a
  partial function: \<open>None\<close> is the loop that never ends, \<open>Some (Inl e)\<close> an exception and
  \<open>Some (Inr ret)\<close> the list returned.
\<close>

partial_function (option) pslist_loop ::
  "dump \<Rightarrow> int \<Rightarrow> ListEntry \<Rightarrow> EProcess list \<Rightarrow> (error + EProcess list) option"
where
  "pslist_loop d pslist_head next_ps ret =
     (if flink next_ps \<noteq> pslist_head
      then (case read_process d (flink next_ps) of
              Inl e \<Rightarrow> Some (Inl e)
            | Inr ps \<Rightarrow> pslist_loop d pslist_head (active_process_links ps) (ret @ [ps]))
      else Some (Inr ret))"

definition pslist :: "dump \<Rightarrow> (error + EProcess list) option" where
  "pslist d =
     (let pslist_head = process_head d in
      case read_list_head d of
        Inl e \<Rightarrow> Some (Inl e)
      | Inr next_ps \<Rightarrow> pslist_loop d pslist_head next_ps [])"

text \<open>
  The processes \<open>ps\<close> are linked from the forward link \<open>lnk\<close> back to the head of the
  list: each forward link differs from the head and leads to the next process, and the
  forward link of the last one is the head.
\<close>

fun linked_from :: "dump \<Rightarrow> int \<Rightarrow> EProcess list \<Rightarrow> bool" where
  "linked_from d lnk [] = (lnk = process_head d)"
| "linked_from d lnk (p # ps) =
     (lnk \<noteq> process_head d \<and> read_process d lnk = Inr p \<and>
      linked_from d (flink (active_process_links p)) ps)"

section \<open>Well-formed run tables\<close>

text \<open>
  The runs of a dump follow one another in the file without gaps: \<open>contiguous fp rs\<close>
  says that the first run starts at file offset \<open>fp\<close> and each next one where the
  previous ends.
\<close>

fun contiguous :: "int \<Rightarrow> (int \<times> int \<times> int) list \<Rightarrow> bool" where
  "contiguous fp [] = True"
| "contiguous fp ((fpos, saddr, rlength) # rs) = (fpos = fp \<and> contiguous (fp + rlength) rs)"

text \<open>
  The runs are in ascending order of physical address and do not overlap:
  \<open>ascending lo rs\<close> says that each run starts at or after the end of the previous one,
  the first at or after \<open>lo\<close>.
\<close>

fun ascending :: "int \<Rightarrow> (int \<times> int \<times> int) list \<Rightarrow> bool" where
  "ascending lo [] = True"
| "ascending lo ((fpos, saddr, rlength) # rs) = (lo \<le> saddr \<and> ascending (saddr + rlength) rs)"

text \<open>Starts and lengths are whole pages, as \<open>CrashDump.__init__\<close> makes them.\<close>

fun page_aligned :: "(int \<times> int \<times> int) list \<Rightarrow> bool" where
  "page_aligned [] = True"
| "page_aligned ((fpos, saddr, rlength) # rs) =
     (0 \<le> saddr \<and> saddr mod 4096 = 0 \<and> 0 \<le> rlength \<and> rlength mod 4096 = 0 \<and> page_aligned rs)"

text \<open>The scan of \<open>CrashDump.read\<close> goes past a run: no \<open>raise\<close> and no \<open>break\<close>.\<close>

fun passes :: "int \<Rightarrow> (int \<times> int \<times> int) list \<Rightarrow> bool" where
  "passes pos [] = True"
| "passes pos ((fpos, saddr, rlength) # rs) = (saddr \<le> pos \<and> saddr + rlength < pos \<and> passes pos rs)"

section \<open>The image name as the specification words it\<close>

text \<open>
  The specification describes the decoding of the image name as trimming the trailing NUL
  bytes and decoding the rest as ASCII. These two definitions follow its words; they are
  compared with \<open>decode_image_name\<close>, which follows the program.
\<close>

definition spec_trim_trailing_nul :: "byte list \<Rightarrow> byte list" where
  "spec_trim_trailing_nul bs = rev (dropWhile (\<lambda>b. b = 0) (rev bs))"

definition spec_decode_image_name :: "byte list \<Rightarrow> error + string" where
  "spec_decode_image_name bs = decode_ascii (spec_trim_trailing_nul bs)"

text \<open>The file offset at which the last run ends, for runs that start at \<open>fp\<close>.\<close>

fun runs_end :: "int \<Rightarrow> (int \<times> int \<times> int) list \<Rightarrow> int" where
  "runs_end fp [] = fp"
| "runs_end fp ((fpos, saddr, rlength) # rs) = runs_end (fpos + rlength) rs"

text \<open>
  The flat image that a run table describes, from physical address \<open>lo\<close> on: zeros up to
  the start of each run, then the bytes of the run as the file holds them.
\<close>

fun replayed :: "byte list \<Rightarrow> int \<Rightarrow> (int \<times> int \<times> int) list \<Rightarrow> byte list" where
  "replayed file lo [] = []"
| "replayed file lo ((fpos, saddr, rlength) # rs) =
     replicate (nat (saddr - lo)) 0 @ take (nat rlength) (drop (nat fpos) file) @
     replayed file (saddr + rlength) rs"

section \<open>Synthetic images\<close>

text \<open>
  A flat image with a two-level page table at directory base 0: directory entry 1 holds
  the table base \<open>0x1000\<close> with the flag bits \<open>0x067\<close>, and entry 2 of that table holds
  the page base \<open>0x5000\<close> with the flag bits \<open>0x025\<close>. All other entries are zero.
\<close>

definition flat_image :: "byte list" where
  "flat_image = replicate 4 0 @ pack_L 0x1067 @ replicate 4088 0 @ replicate 8 0 @ pack_L 0x5025"

definition flat_dump :: dump where
  "flat_dump = RawDump_init flat_image ArchX86"

text \<open>
  The 4096-byte header of a crash dump: the directory base at \<open>0x10\<close>, the head of the
  process list at \<open>0x1c\<close>, and from \<open>0x64\<close> the number of runs, the last page and the
  runs as pairs (first page, number of pages).
\<close>

definition crash_header :: "int \<Rightarrow> int \<Rightarrow> (int \<times> int) list \<Rightarrow> byte list" where
  "crash_header dbase phead runs =
     replicate 16 0 @ pack_L dbase @ replicate 8 0 @ pack_L phead @ replicate 68 0 @
     pack_L (int (length runs)) @ pack_L 0 @
     concat (map (\<lambda>(s, n). pack_L s @ pack_L n) runs) @
     replicate (4096 - 0x6c - 8 * length runs) 0"

text \<open>A crash dump of one run, pages 1 and 2, followed by the bytes of the two pages.\<close>

definition one_run_file :: "byte list \<Rightarrow> byte list" where
  "one_run_file pages = crash_header 0 0 [(1, 2)] @ pages"

definition one_run_dump :: "byte list \<Rightarrow> archclass \<Rightarrow> dump" where
  "one_run_dump pages archc =
     \<lparr>dirbase = 0, process_head = 0, arch = archc, cls = CrashDump,
      mem = one_run_file pages, ranges = [(4096, 4096, 8192)]\<rparr>"

text \<open>
  A crash dump of two runs with a gap between them: pages 1 and 2, then page 4. The file
  holds the header and the three pages. Page 1 is a page directory whose entry 0 is zero.
\<close>

definition two_run_file :: "byte list" where
  "two_run_file =
     crash_header 0x1000 0 [(1, 2), (4, 1)] @
     (pack_L 0 @ replicate 4092 0x11) @ replicate 4096 0x22 @ replicate 4096 0x44"

definition two_run_dump :: dump where
  "two_run_dump =
     \<lparr>dirbase = 0x1000, process_head = 0, arch = ArchX86, cls = CrashDump,
      mem = two_run_file, ranges = [(4096, 4096, 8192), (12288, 16384, 4096)]\<rparr>"

text \<open>The 15 bytes \<open>b"notepad.exe\0\0\0\0"\<close>.\<close>

definition notepad_field :: "byte list" where
  "notepad_field =
     [0x6e, 0x6f, 0x74, 0x65, 0x70, 0x61, 0x64, 0x2e, 0x65, 0x78, 0x65] @ replicate 4 0"

text \<open>A 15-byte field with a NUL byte between two letters: \<open>b"a\0b"\<close> and twelve NUL bytes.\<close>

definition inner_nul_field :: "byte list" where
  "inner_nul_field = [0x61, 0x00, 0x62] @ replicate 12 0"

text \<open>A process block, cut after the image name, whose image name starts with byte 255.\<close>

definition non_ascii_block :: "byte list" where
  "non_ascii_block = replicate 0x16c 0 @ [0xff] @ replicate 14 0"

text \<open>
  The 728 bytes of a process: creation and exit time at \<open>0xa0\<close> and \<open>0xa8\<close>, the process
  id at \<open>0xb4\<close>, the two links at \<open>0xb8\<close> and the image name at \<open>0x16c\<close>.
\<close>

definition process_block ::
  "int \<Rightarrow> byte list \<Rightarrow> int \<Rightarrow> int \<Rightarrow> byte list \<Rightarrow> byte list \<Rightarrow> byte list" where
  "process_block p name fl bl ct et =
     replicate 160 0 @ ct @ et @ replicate 4 0 @ pack_L p @ pack_L fl @ pack_L bl @
     replicate 172 0 @ name @ replicate 349 0"

definition one_day_ticks :: "byte list" where
  "one_day_ticks = [0x00, 0xC0, 0x69, 0x2A, 0xC9, 0x00, 0x00, 0x00]"

definition zero_ticks :: "byte list" where
  "zero_ticks = [0, 0, 0, 0, 0, 0, 0, 0]"

definition system_field :: "byte list" where
  "system_field = [0x53, 0x79, 0x73, 0x74, 0x65, 0x6d] @ replicate 9 0"

definition smss_field :: "byte list" where
  "smss_field = [0x73, 0x6d, 0x73, 0x73, 0x2e, 0x65, 0x78, 0x65] @ replicate 7 0"

text \<open>
  A page that holds a circular list of four nodes: the head at offset \<open>0x10\<close> and three
  processes at \<open>0x100\<close>, \<open>0x400\<close> and \<open>0x700\<close>, whose list nodes are at \<open>0x1b8\<close>, \<open>0x4b8\<close> and
  \<open>0x7b8\<close>. The forward link of the last process is the address of the head.
\<close>

definition process_page :: "byte list" where
  "process_page =
     replicate 16 0 @ (pack_L 0x1b8 @ pack_L 0x7b8) @ replicate 232 0 @
     process_block 4 system_field 0x4b8 0x10 one_day_ticks zero_ticks @ replicate 40 0 @
     process_block 368 smss_field 0x7b8 0x1b8 one_day_ticks zero_ticks @ replicate 40 0 @
     process_block 1234 notepad_field 0x10 0x4b8 one_day_ticks zero_ticks"

text \<open>
  A flat image of three pages: a page directory whose entry 0 points to the table at
  \<open>0x1000\<close>, a page table whose entry 0 points to the page at \<open>0x2000\<close>, and the page of
  the processes. Virtual addresses below \<open>0x1000\<close> are mapped to \<open>0x2000\<close> and above.
\<close>

definition process_image :: "byte list" where
  "process_image =
     (pack_L 0x1007 @ replicate 4092 0) @ (pack_L 0x2007 @ replicate 4092 0) @ process_page"

definition process_dump :: dump where
  "process_dump = (RawDump_init process_image ArchX86)\<lparr>process_head := 0x10\<rparr>"

text \<open>The three process records that the image holds, as \<open>EProcess\<close> decodes them.\<close>

definition decoded_process :: "int \<Rightarrow> string \<Rightarrow> int \<Rightarrow> int \<Rightarrow> int \<Rightarrow> EProcess" where
  "decoded_process base nm p fl bl =
     \<lparr>base_addr = base,
      pcb = \<lparr>profile_list_head = \<lparr>flink = 0, blink = 0\<rparr>, directory_table_base = 0\<rparr>,
      active_process_links = \<lparr>flink = fl, blink = bl\<rparr>,
      image_name = nm, pid = p,
      create_time = Some \<lparr>year = 1601, month = 1, day = 2, hour = 0, minute = 0, second = 0,
                           microsecond = 0\<rparr>,
      exit_time = None\<rparr>"

text \<open>The flat image of the crash dump of two runs: pages 0 and 3 are zeros.\<close>

definition two_run_flat :: "byte list" where
  "two_run_flat =
     replicate 4096 0 @ (pack_L 0 @ replicate 4092 0x11) @ replicate 4096 0x22 @
     replicate 4096 0 @ replicate 4096 0x44"

text \<open>
  The same header of two runs on a file that has lost its end: only page 1 follows the
  header. The flat image made from it has a page of zeros, page 1, and a page of zeros.
\<close>

definition truncated_file :: "byte list" where
  "truncated_file = crash_header 0x1000 0 [(1, 2), (4, 1)] @ (pack_L 0 @ replicate 4092 0x11)"

definition truncated_dump :: dump where
  "truncated_dump =
     \<lparr>dirbase = 0x1000, process_head = 0, arch = ArchX86, cls = CrashDump,
      mem = truncated_file, ranges = [(4096, 4096, 8192), (12288, 16384, 4096)]\<rparr>"

definition truncated_flat :: "byte list" where
  "truncated_flat = replicate 4096 0 @ (pack_L 0 @ replicate 4092 0x11) @ replicate 4096 0"

text \<open>A crash dump whose two runs are declared in descending order: page 2, then page 1.\<close>

definition descending_file :: "byte list" where
  "descending_file =
     crash_header 0 0 [(2, 1), (1, 1)] @ replicate 4096 0x22 @ replicate 4096 0x11"

definition descending_dump :: dump where
  "descending_dump =
     \<lparr>dirbase = 0, process_head = 0, arch = ArchX86, cls = CrashDump,
      mem = descending_file, ranges = [(4096, 8192, 4096), (8192, 4096, 4096)]\<rparr>"

section \<open>Virtual addresses and their fields\<close>

lemma and_low_mask: "(x::int) AND mask k = x mod 2 ^ k"
  by (simp add: take_bit_eq_mod flip: take_bit_eq_mask)

lemma field_bits: "drop_bit n ((x::int) AND push_bit n (mask k)) = (x div 2 ^ n) mod 2 ^ k"
proof -
  have "drop_bit n (x AND push_bit n (mask k)) = take_bit k (drop_bit n x)"
    by (rule bit_eqI) (auto simp: bit_simps)
  then show ?thesis by (simp add: take_bit_eq_mod drop_bit_eq_div)
qed

lemma and_fff: "(x::int) AND 0xfff = x mod 4096"
  using and_low_mask [of x 12] by (simp add: mask_eq_exp_minus_1)

lemma and_3ff: "(x::int) AND 0x3ff = x mod 1024"
  using and_low_mask [of x 10] by (simp add: mask_eq_exp_minus_1)

lemma and_ffffffff: "(x::int) AND 0xffffffff = x mod 4294967296"
  using and_low_mask [of x 32] by (simp add: mask_eq_exp_minus_1)

lemma and_fffff000: "(x::int) AND 0xfffff000 = 4096 * ((x div 4096) mod 1048576)"
proof -
  have c: "(0xfffff000::int) = push_bit 12 (mask 20)" by (simp add: mask_eq_exp_minus_1)
  have "x AND push_bit 12 (mask 20) = push_bit 12 (take_bit 20 (drop_bit 12 x))"
    by (rule bit_eqI) (auto simp: bit_simps)
  then show ?thesis unfolding c by (simp add: push_bit_eq_mult take_bit_eq_mod drop_bit_eq_div)
qed

lemma x86_pdi: "drop_bit 22 ((x::int) AND 0xffc00000) = (x div 4194304) mod 1024"
  using field_bits [of 22 x 10] by (simp add: mask_eq_exp_minus_1)

lemma x86_pti: "drop_bit 12 ((x::int) AND 0x003ff000) = (x div 4096) mod 1024"
  using field_bits [of 12 x 10] by (simp add: mask_eq_exp_minus_1)

lemma pae_pdpi: "drop_bit 30 ((x::int) AND 0xc0000000) = (x div 1073741824) mod 4"
  using field_bits [of 30 x 2] by (simp add: mask_eq_exp_minus_1)

lemma pae_pdi: "drop_bit 21 ((x::int) AND 0x3fe00000) = (x div 2097152) mod 512"
  using field_bits [of 21 x 9] by (simp add: mask_eq_exp_minus_1)

lemma pae_pti: "drop_bit 12 ((x::int) AND 0x001ff000) = (x div 4096) mod 512"
  using field_bits [of 12 x 9] by (simp add: mask_eq_exp_minus_1)

lemma ArchX86_parse_vaddr_eq:
  "ArchX86_parse_vaddr addr = ((addr div 4194304) mod 1024, (addr div 4096) mod 1024, addr mod 4096)"
  unfolding ArchX86_parse_vaddr_def x86_pdi x86_pti and_fff by (rule refl)

lemma ArchX86PAE_parse_vaddr_eq:
  "ArchX86PAE_parse_vaddr addr =
     ((addr div 1073741824) mod 4, (addr div 2097152) mod 512, (addr div 4096) mod 512, addr mod 4096)"
  unfolding ArchX86PAE_parse_vaddr_def pae_pdpi pae_pdi pae_pti and_fff by (rule refl)

lemma split_mod: "0 \<le> c \<Longrightarrow> (x::int) mod (b * c) = b * ((x div b) mod c) + x mod b"
  by (rule zmod_zmult2_eq)

lemma split_22: "(x::int) mod 4194304 = 4096 * ((x div 4096) mod 1024) + x mod 4096"
  using split_mod [where x = x and b = 4096 and c = 1024] by simp

lemma split_32: "(x::int) mod 4294967296 = 4194304 * ((x div 4194304) mod 1024) + x mod 4194304"
  using split_mod [where x = x and b = 4194304 and c = 1024] by simp

lemma split_21: "(x::int) mod 2097152 = 4096 * ((x div 4096) mod 512) + x mod 4096"
  using split_mod [where x = x and b = 4096 and c = 512] by simp

lemma split_30: "(x::int) mod 1073741824 = 2097152 * ((x div 2097152) mod 512) + x mod 2097152"
  using split_mod [where x = x and b = 2097152 and c = 512] by simp

lemma split_32': "(x::int) mod 4294967296 = 1073741824 * ((x div 1073741824) mod 4) + x mod 1073741824"
  using split_mod [where x = x and b = 1073741824 and c = 4] by simp


lemma x86_fields_sum:
  "((x::int) div 4194304) mod 1024 * 4096 * 1024 + (x div 4096) mod 1024 * 4096 + x mod 4096
     = x mod 4294967296"
  unfolding split_32 split_22 by simp

lemma pae_fields_sum:
  "((x::int) div 1073741824) mod 4 * 1073741824 + (x div 2097152) mod 512 * 2097152
     + (x div 4096) mod 512 * 4096 + x mod 4096 = x mod 4294967296"
  unfolding split_32' split_30 split_21 by simp


lemma drop_bit_22: "drop_bit 22 (x::int) = x div 4194304"
  by (simp add: drop_bit_eq_div)

lemma drop_bit_12: "drop_bit 12 (x::int) = x div 4096"
  by (simp add: drop_bit_eq_div)


lemma x86_fields:
  "ArchX86_parse_vaddr x = (x div 4194304 mod 1024, x div 4096 mod 1024, x mod 4096) \<and>
   (case ArchX86_parse_vaddr x of (pdi, pti, offset) \<Rightarrow>
      pdi * 4096 * 1024 + pti * 4096 + offset = x mod 4294967296)"
  unfolding ArchX86_parse_vaddr_eq prod.case by (intro conjI refl x86_fields_sum)

lemma pae_fields:
  "(case ArchX86PAE_parse_vaddr x of (pdpi, pdi, pti, offset) \<Rightarrow>
      0 \<le> pdpi \<and> pdpi < 4 \<and> 0 \<le> pdi \<and> pdi < 512 \<and> 0 \<le> pti \<and> pti < 512 \<and>
      0 \<le> offset \<and> offset < 4096 \<and>
      pdpi * 1073741824 + pdi * 2097152 + pti * 4096 + offset = x mod 4294967296)"
  unfolding ArchX86PAE_parse_vaddr_eq prod.case
  by (intro conjI pae_fields_sum pos_mod_sign pos_mod_bound) simp_all

text \<open>
  C5. For every 32-bit virtual address, \<open>ArchX86.parse_vaddr\<close> returns
  \<open>pdi = vaddr >> 22\<close>, \<open>pti = (vaddr >> 12) & 0x3ff\<close> and \<open>offset = vaddr & 0xfff\<close>, and
  \<open>pdi * 4096 * 1024 + pti * 4096 + offset\<close> gives back \<open>vaddr & 0xffffffff\<close>;
  \<open>ArchX86PAE.parse_vaddr\<close> returns fields of 2, 9, 9 and 12 bits that give back the same
  value when each is put at its place.
\<close>

theorem parse_vaddr_roundtrip:
  assumes "0 \<le> vaddr" and "vaddr < 2 ^ 32"
  shows "ArchX86_parse_vaddr vaddr = (drop_bit 22 vaddr, drop_bit 12 vaddr AND 0x3ff, vaddr AND 0xfff)
    \<and> (case ArchX86_parse_vaddr vaddr of (pdi, pti, offset) \<Rightarrow>
           pdi * 4096 * 1024 + pti * 4096 + offset = vaddr AND 0xffffffff)
    \<and> (case ArchX86PAE_parse_vaddr vaddr of (pdpi, pdi, pti, offset) \<Rightarrow>
           0 \<le> pdpi \<and> pdpi < 4 \<and> 0 \<le> pdi \<and> pdi < 512 \<and> 0 \<le> pti \<and> pti < 512 \<and>
           0 \<le> offset \<and> offset < 4096 \<and>
           pdpi * 1073741824 + pdi * 2097152 + pti * 4096 + offset = vaddr AND 0xffffffff)"
proof -
  have "vaddr div 4194304 < 1024" using assms by simp
  moreover have "0 \<le> vaddr div 4194304" using assms by simp
  ultimately have "(vaddr div 4194304) mod 1024 = vaddr div 4194304" by simp
  then have a: "ArchX86_parse_vaddr vaddr = (drop_bit 22 vaddr, drop_bit 12 vaddr AND 0x3ff, vaddr AND 0xfff)"
    unfolding ArchX86_parse_vaddr_eq and_3ff and_fff drop_bit_22 drop_bit_12 by simp
  have b: "(case ArchX86_parse_vaddr vaddr of (pdi, pti, offset) \<Rightarrow>
      pdi * 4096 * 1024 + pti * 4096 + offset = vaddr mod 4294967296)"
    using x86_fields [of vaddr] by (rule conjunct2)
  show ?thesis
    unfolding and_ffffffff by (rule conjI [OF a conjI [OF b pae_fields]])
qed

lemma ArchX86_parse_vaddr_example: "ArchX86_parse_vaddr 0x80123456 = (0x200, 0x123, 0x456)"
  unfolding ArchX86_parse_vaddr_eq by simp

lemma ArchX86PAE_parse_vaddr_example: "ArchX86PAE_parse_vaddr 0x80123456 = (2, 0, 0x123, 0x456)"
  unfolding ArchX86PAE_parse_vaddr_eq by simp

theorem parse_vaddr_roundtrip_witness:
  "(0::int) \<le> 0x80123456 \<and> (0x80123456::int) < 2 ^ 32 \<and>
   ArchX86_parse_vaddr 0x80123456 = (0x200, 0x123, 0x456) \<and>
   ArchX86PAE_parse_vaddr 0x80123456 = (2, 0, 0x123, 0x456) \<and>
   (0x200::int) * 4096 * 1024 + 0x123 * 4096 + 0x456 = 0x80123456 AND 0xffffffff"
proof -
  have h: "(0::int) \<le> 0x80123456" "(0x80123456::int) < 2 ^ 32" by simp_all
  from parse_vaddr_roundtrip [OF h] show ?thesis
    unfolding ArchX86_parse_vaddr_example ArchX86PAE_parse_vaddr_example prod.case using h by simp
qed


section \<open>Translation through the page tables\<close>

lemma rbind_Inl [simp]: "rbind (Inl e) f = Inl e"
  by (simp add: rbind_def)

lemma rbind_Inr [simp]: "rbind (Inr x) f = f x"
  by (simp add: rbind_def)

lemma rbind_eq_Inr:
  "rbind m f = Inr y \<longleftrightarrow> (\<exists>x. m = Inr x \<and> f x = Inr y)"
  by (cases m) simp_all

lemma page_base_plus_offset: "(((e::int) AND 0xfffff000) + (addr AND 0xfff)) mod 4096 = addr mod 4096"
proof -
  have "(4096 * ((e div 4096) mod 1048576) + addr mod 4096) mod 4096 = addr mod 4096"
    by (simp only: mod_mult_self4 mod_mod_trivial)
  then show ?thesis unfolding and_fffff000 and_fff .
qed

lemma ArchX86_vtop_Inr:
  assumes "ArchX86_vtop m addr = Inr paddr"
  shows "\<exists>pte0. paddr = (pte0 AND 0xfffff000) + (addr AND 0xfff)"
  using assms unfolding ArchX86_vtop_def ArchX86_parse_vaddr_def prod.case Let_def rbind_eq_Inr
  by blast

lemma ArchX86PAE_vtop_Inr:
  assumes "ArchX86PAE_vtop m addr = Inr paddr"
  shows "\<exists>pte0. paddr = (pte0 AND 0xfffff000) + (addr AND 0xfff)"
  using assms unfolding ArchX86PAE_vtop_def ArchX86PAE_parse_vaddr_def prod.case Let_def rbind_eq_Inr
  by blast

text \<open>
  C10. Whenever \<open>vtop\<close> returns normally, the physical address has the page offset of the
  virtual address, for \<open>ArchX86\<close> and for \<open>ArchX86PAE\<close>: the result modulo 4096 is the
  input modulo 4096, since the last entry is masked to a multiple of 4096 before the
  12-bit offset is added.
\<close>

theorem vtop_preserves_page_offset:
  "(ArchX86_vtop m addr = Inr paddr \<longrightarrow> paddr mod 4096 = addr mod 4096) \<and>
   (ArchX86PAE_vtop m addr = Inr paddr \<longrightarrow> paddr mod 4096 = addr mod 4096)"
  using ArchX86_vtop_Inr [of m addr paddr] ArchX86PAE_vtop_Inr [of m addr paddr]
    page_base_plus_offset [of _ addr]
  by blast

lemma uint_byte: "uint (word_of_int x :: byte) = x mod 256"
  by (simp add: uint_word_of_int)

lemma unpack_pack_L:
  assumes "0 \<le> (x::int)" and "x < 4294967296"
  shows "unpack_L (pack_L x) = Inr x"
proof -
  have a: "x mod 4294967296 = 16777216 * (x div 16777216 mod 256) + x mod 16777216"
    using split_mod [where x = x and b = 16777216 and c = 256] by simp
  have b: "x mod 16777216 = 65536 * (x div 65536 mod 256) + x mod 65536"
    using split_mod [where x = x and b = 65536 and c = 256] by simp
  have c: "x mod 65536 = 256 * (x div 256 mod 256) + x mod 256"
    using split_mod [where x = x and b = 256 and c = 256] by simp
  have d: "x mod 256 + 256 * (x div 256 mod 256) + 65536 * (x div 65536 mod 256)
              + 16777216 * (x div 16777216 mod 256) = x mod 4294967296"
    unfolding a b c by (simp only: add_ac)
  have e: "x mod 4294967296 = x" using assms by (rule mod_pos_pos_trivial)
  show ?thesis
    unfolding pack_L_def unpack_L.simps uint_byte d e by (rule refl)
qed

lemma entry_flags_masked:
  assumes "0 \<le> (T::int)" and "T < 4294967296" and "T mod 4096 = 0" and "0 \<le> (f::int)" and "f < 4096"
  shows "(T + f) AND 0xfffff000 = T"
proof -
  obtain k where k: "T = 4096 * k" using assms(3) by (auto simp: mod_eq_0_iff_dvd)
  have "(T + f) div 4096 = k" unfolding k using assms(4,5) by simp
  moreover have "0 \<le> k" "k < 1048576" using assms(1,2) unfolding k by simp_all
  ultimately have "((T + f) div 4096) mod 1048576 = k" by simp
  then show ?thesis unfolding and_fffff000 k by simp
qed

text \<open>
  C4. In a two-level page table whose directory entry \<open>pdi\<close> holds the table base \<open>T\<close>
  and whose table entry \<open>pti\<close> holds the page base \<open>P\<close>, \<open>ArchX86.vtop\<close> returns exactly
  \<open>P + offset\<close>, whatever flag bits \<open>f1\<close> and \<open>f2\<close> are set in the low 12 bits of the two
  entries: the mask \<open>0xfffff000\<close> removes them.
\<close>

theorem ArchX86_vtop_two_level:
  assumes "ArchX86_parse_vaddr vaddr = (pdi, pti, offset)"
    and "0 \<le> T" and "T < 4294967296" and "T mod 4096 = 0"
    and "0 \<le> P" and "P < 4294967296" and "P mod 4096 = 0"
    and "0 \<le> f1" and "f1 < 4096" and "0 \<le> f2" and "f2 < 4096"
    and "read m (dirbase m + pdi * 4) 4 = Inr (pack_L (T + f1))"
    and "read m (T + pti * 4) 4 = Inr (pack_L (P + f2))"
  shows "ArchX86_vtop m vaddr = Inr (P + offset)"
proof -
  have T4: "T \<le> 4294963200"
  proof -
    obtain k where k: "T = 4096 * k" using assms(4) by (auto simp: mod_eq_0_iff_dvd)
    then have "k < 1048576" using assms(3) by simp
    then show ?thesis unfolding k by simp
  qed
  have P4: "P \<le> 4294963200"
  proof -
    obtain k where k: "P = 4096 * k" using assms(7) by (auto simp: mod_eq_0_iff_dvd)
    then have "k < 1048576" using assms(6) by simp
    then show ?thesis unfolding k by simp
  qed
  have u1: "unpack_L (pack_L (T + f1)) = Inr (T + f1)"
    using assms(2,8,9) T4 by (intro unpack_pack_L) simp_all
  have u2: "unpack_L (pack_L (P + f2)) = Inr (P + f2)"
    using assms(5,10,11) P4 by (intro unpack_pack_L) simp_all
  have m1: "(T + f1) AND 0xfffff000 = T"
    using assms by (intro entry_flags_masked)
  have m2: "(P + f2) AND 0xfffff000 = P"
    using assms by (intro entry_flags_masked)
  show ?thesis
    unfolding ArchX86_vtop_def assms(1) prod.case assms(12) rbind_Inr u1 Let_def m1 assms(13) u2 m2
    by (rule refl)
qed

subsection \<open>The translation on the flat image\<close>

lemma length_pack_L [simp]: "length (pack_L x) = 4"
  by (simp add: pack_L_def)

lemma unpack_2L_pack:
  assumes "0 \<le> a" "a < 4294967296" "0 \<le> b" "b < 4294967296"
  shows "unpack_2L (pack_L a @ pack_L b) = Inr (a, b)"
  using assms by (simp add: unpack_2L_def unpack_pack_L)

lemma read_RawDump: "cls d = RawDump \<Longrightarrow> read d pos len = file_read (mem d) pos len"
  by (simp add: read_def RawDump_read_def)

lemma read_CrashDump: "cls d = CrashDump \<Longrightarrow> read d pos len = CrashDump_read d pos len"
  by (simp add: read_def)

lemma flat_pde: "read flat_dump 4 4 = Inr (pack_L 0x1067)"
  by (simp add: read_RawDump flat_dump_def RawDump_init_def flat_image_def file_read_def)

lemma flat_pte: "read flat_dump 0x1008 4 = Inr (pack_L 0x5025)"
  by (simp add: read_RawDump flat_dump_def RawDump_init_def flat_image_def file_read_def)

lemma flat_zero: "read flat_dump 0 4 = Inr (pack_L 0)"
  by (simp add: read_RawDump flat_dump_def RawDump_init_def flat_image_def file_read_def pack_L_def
      numeral_eq_Suc)

lemma dirbase_flat [simp]: "dirbase flat_dump = 0"
  by (simp add: flat_dump_def RawDump_init_def)

lemma parse_402abc: "ArchX86_parse_vaddr 0x402abc = (1, 2, 0xabc)"
  unfolding ArchX86_parse_vaddr_eq by simp

theorem ArchX86_vtop_two_level_witness:
  "ArchX86_parse_vaddr 0x402abc = (1, 2, 0xabc) \<and>
   read flat_dump (dirbase flat_dump + 1 * 4) 4 = Inr (pack_L (0x1000 + 0x067)) \<and>
   read flat_dump (0x1000 + 2 * 4) 4 = Inr (pack_L (0x5000 + 0x025)) \<and>
   ArchX86_vtop flat_dump 0x402abc = Inr (0x5000 + 0xabc)"
proof -
  have r1: "read flat_dump (dirbase flat_dump + 1 * 4) 4 = Inr (pack_L (0x1000 + 0x067))"
    using flat_pde by simp
  have r2: "read flat_dump (0x1000 + 2 * 4) 4 = Inr (pack_L (0x5000 + 0x025))"
    using flat_pte by simp
  have "ArchX86_vtop flat_dump 0x402abc = Inr (0x5000 + 0xabc)"
    by (rule ArchX86_vtop_two_level [OF parse_402abc _ _ _ _ _ _ _ _ _ _ r1 r2]) simp_all
  with r1 r2 parse_402abc show ?thesis by blast
qed

lemma vtop_flat_x86: "ArchX86_vtop flat_dump 0x402abc = Inr 0x5abc"
  unfolding ArchX86_vtop_def parse_402abc prod.case
  using flat_pde flat_pte by (simp add: unpack_pack_L entry_flags_masked [of "0x1000" "0x67", simplified] entry_flags_masked [of "0x5000" "0x25", simplified])

lemma parse_pae_abc: "ArchX86PAE_parse_vaddr 0xabc = (0, 0, 0, 0xabc)"
  unfolding ArchX86PAE_parse_vaddr_eq by simp

lemma vtop_flat_pae: "ArchX86PAE_vtop flat_dump 0xabc = Inr 0xabc"
  unfolding ArchX86PAE_vtop_def parse_pae_abc prod.case
  using flat_zero by (simp add: unpack_pack_L)

theorem vtop_preserves_page_offset_witness:
  "ArchX86_vtop flat_dump 0x402abc = Inr 0x5abc \<and> (0x5abc::int) mod 4096 = 0x402abc mod 4096 \<and>
   ArchX86PAE_vtop flat_dump 0xabc = Inr 0xabc \<and> (0xabc::int) mod 4096 = 0xabc mod 4096"
  using vtop_preserves_page_offset [of flat_dump "0x402abc" "0x5abc"]
    vtop_preserves_page_offset [of flat_dump "0xabc" "0xabc"] vtop_flat_x86 vtop_flat_pae
  by blast

section \<open>Reading a crash dump\<close>

subsection \<open>The run table built from the header\<close>

lemma unpack_L_nonneg: "unpack_L bs = Inr x \<Longrightarrow> 0 \<le> x"
  by (cases bs rule: unpack_L.cases) auto

lemma unpack_2L_nonneg: "unpack_2L bs = Inr (a, b) \<Longrightarrow> 0 \<le> a \<and> 0 \<le> b"
  by (auto simp: unpack_2L_def rbind_eq_Inr split: if_splits dest: unpack_L_nonneg)

lemma contiguous_snoc:
  "contiguous fp0 (acc @ [(f, s, l)]) \<longleftrightarrow>
     contiguous fp0 acc \<and> f = fp0 + sum_list (map (\<lambda>(f, s, l). l) acc)"
  by (induction acc arbitrary: fp0) auto

lemma page_aligned_snoc:
  "page_aligned (acc @ [(f, s, l)]) \<longleftrightarrow>
     page_aligned acc \<and> 0 \<le> s \<and> s mod 4096 = 0 \<and> 0 \<le> l \<and> l mod 4096 = 0"
  by (induction acc) auto

lemma parse_runs_wf:
  "parse_runs runs nruns i fpos acc = Inr rs \<Longrightarrow> contiguous fp0 acc \<Longrightarrow>
   fpos = fp0 + sum_list (map (\<lambda>(f, s, l). l) acc) \<Longrightarrow> page_aligned acc \<Longrightarrow>
   contiguous fp0 rs \<and> page_aligned rs"
proof (induction runs nruns i fpos acc rule: parse_runs.induct)
  case (1 runs nruns i fpos acc)
  show ?case
  proof (cases "i < nruns + 1")
    case False
    with "1.prems" show ?thesis by (simp add: parse_runs.simps)
  next
    case True
    with "1.prems"(1) obtain start_addr len where
      u: "unpack_2L (py_slice runs (nat (i * 8)) (nat (i * 8 + 8))) = Inr (start_addr, len)"
      and p: "parse_runs runs nruns (i + 1) (fpos + len * 4096)
                (acc @ [(fpos, start_addr * 4096, len * 4096)]) = Inr rs"
      by (subst (asm) parse_runs.simps) (auto split: sum.splits)
    from unpack_2L_nonneg [OF u] have nn: "0 \<le> start_addr" "0 \<le> len" by simp_all
    show ?thesis
    proof (rule "1.IH" [OF True u refl p])
      show "contiguous fp0 (acc @ [(fpos, start_addr * 4096, len * 4096)])"
        using "1.prems"(2,3) by (simp add: contiguous_snoc)
      show "fpos + len * 4096 =
              fp0 + sum_list (map (\<lambda>(f, s, l). l) (acc @ [(fpos, start_addr * 4096, len * 4096)]))"
        using "1.prems"(3) by simp
      show "page_aligned (acc @ [(fpos, start_addr * 4096, len * 4096)])"
        using "1.prems"(4) nn by (simp add: page_aligned_snoc)
    qed
  qed
qed

lemma CrashDump_init_wf:
  assumes "CrashDump_init file archc = Inr d"
  shows "contiguous 4096 (ranges d) \<and> page_aligned (ranges d) \<and> mem d = file \<and> cls d = CrashDump"
proof -
  from assms obtain dbase phead nruns last_page rs where
    p: "parse_runs (py_slice (take 4096 file) 0x64 0x320) nruns 1 (push_bit 12 1) [] = Inr rs"
    and d: "d = \<lparr>dirbase = dbase, process_head = phead, arch = archc, cls = CrashDump,
                 mem = file, ranges = rs\<rparr>"
    by (auto simp: CrashDump_init_def Let_def rbind_eq_Inr split: prod.splits)
  have "contiguous 4096 rs \<and> page_aligned rs"
    by (rule parse_runs_wf [OF p]) simp_all
  then show ?thesis unfolding d by simp
qed

lemma length_crash_header:
  "length runs \<le> 86 \<Longrightarrow> length (crash_header dbase phead runs) = 4096"
proof -
  have "length (concat (map (\<lambda>(s, n). pack_L s @ pack_L n) runs)) = 8 * length runs"
    by (induction runs) (auto simp: length_concat)
  moreover assume "length runs \<le> 86"
  ultimately show ?thesis by (simp add: crash_header_def)
qed

lemma header_one_run: "take 4096 (one_run_file pages) = crash_header 0 0 [(1, 2)]"
  by (simp add: one_run_file_def length_crash_header)

lemma one_run_dirbase: "unpack_L (py_slice (crash_header 0 0 [(1, 2)]) 0x10 0x14) = Inr 0"
  by (simp add: crash_header_def py_slice_def unpack_pack_L)

lemma one_run_process_head: "unpack_L (py_slice (crash_header 0 0 [(1, 2)]) 0x1c 0x20) = Inr 0"
  by (simp add: crash_header_def py_slice_def unpack_pack_L)

lemma one_run_runs:
  "py_slice (crash_header 0 0 [(1, 2)]) 0x64 0x320
     = pack_L 1 @ pack_L 0 @ pack_L 1 @ pack_L 2 @ replicate 684 0"
  by (simp add: crash_header_def py_slice_def)

lemma one_run_parse_runs:
  "parse_runs (pack_L 1 @ pack_L 0 @ pack_L 1 @ pack_L 2 @ replicate 684 0) 1 1 4096 []
     = Inr [(4096, 4096, 8192)]"
  by (simp add: parse_runs.simps py_slice_def unpack_2L_pack)

lemma CrashDump_init_one_run:
  "CrashDump_init (one_run_file pages) archc = Inr (one_run_dump pages archc)"
  unfolding CrashDump_init_def Let_def header_one_run one_run_dirbase one_run_process_head
    one_run_runs
  by (simp add: py_slice_def unpack_2L_pack one_run_parse_runs one_run_dump_def)

subsection \<open>The scan over the runs\<close>

lemma read_scan_passes:
  "passes pos pre \<Longrightarrow>
   read_scan pos (pre @ rs) cur = read_scan pos rs (if pre = [] then cur else Some (last pre))"
proof (induction pre arbitrary: cur)
  case Nil
  then show ?case by simp
next
  case (Cons r pre)
  obtain f s l where r: "r = (f, s, l)" by (cases r)
  from Cons.prems have p: "s \<le> pos" "s + l < pos" "passes pos pre"
    unfolding r by simp_all
  show ?case
    using p(1,2) Cons.IH [OF p(3), of "Some (f, s, l)"] unfolding r by auto
qed

lemma contiguous_append:
  "contiguous fp (pre @ (f, s, l) # (f', s', l') # post) \<Longrightarrow> f' = f + l"
  by (induction pre arbitrary: fp) auto

text \<open>
  C6. The containment test of \<open>CrashDump.read\<close> has an inclusive upper bound: when the scan
  reaches a run and the position is exactly the run's start plus its length, the read is
  accepted and resolved in that run, at file offset \<open>fpos + (pos - saddr)\<close>; with the runs
  laid out one after the other in the file, that offset is where the next run begins.
\<close>

theorem CrashDump_read_inclusive_upper_bound:
  assumes "ranges d = pre @ (fpos, saddr, rlength) # post"
    and "passes pos pre"
    and "0 \<le> rlength"
    and "pos = saddr + rlength"
  shows "CrashDump_read d pos len = file_read (mem d) (fpos + (pos - saddr)) len \<and>
         (\<forall>fp f' s' l' post'. contiguous fp (ranges d) \<and> post = (f', s', l') # post'
            \<longrightarrow> fpos + (pos - saddr) = f')"
proof
  have "read_scan pos (ranges d) None = Inr (Some (fpos, saddr, rlength))"
    unfolding assms(1) read_scan_passes [OF assms(2)] using assms(3,4) by simp
  then show "CrashDump_read d pos len = file_read (mem d) (fpos + (pos - saddr)) len"
    by (simp add: CrashDump_read_def)
  show "\<forall>fp f' s' l' post'. contiguous fp (ranges d) \<and> post = (f', s', l') # post'
            \<longrightarrow> fpos + (pos - saddr) = f'"
    using contiguous_append [of _ pre fpos saddr rlength] assms(1,4) by auto
qed

subsection \<open>Reads and translations on the synthetic crash dumps\<close>

lemma header_two_run: "take 4096 two_run_file = crash_header 0x1000 0 [(1, 2), (4, 1)]"
  by (simp add: two_run_file_def length_crash_header)

lemma two_run_dirbase:
  "unpack_L (py_slice (crash_header 0x1000 0 [(1, 2), (4, 1)]) 0x10 0x14) = Inr 0x1000"
  by (simp add: crash_header_def py_slice_def unpack_pack_L)

lemma two_run_process_head:
  "unpack_L (py_slice (crash_header 0x1000 0 [(1, 2), (4, 1)]) 0x1c 0x20) = Inr 0"
  by (simp add: crash_header_def py_slice_def unpack_pack_L)

lemma two_run_runs:
  "py_slice (crash_header 0x1000 0 [(1, 2), (4, 1)]) 0x64 0x320
     = pack_L 2 @ pack_L 0 @ pack_L 1 @ pack_L 2 @ pack_L 4 @ pack_L 1 @ replicate 676 0"
  by (simp add: crash_header_def py_slice_def)

lemma two_run_parse_runs:
  "parse_runs (pack_L 2 @ pack_L 0 @ pack_L 1 @ pack_L 2 @ pack_L 4 @ pack_L 1 @ replicate 676 0)
      2 1 4096 [] = Inr [(4096, 4096, 8192), (12288, 16384, 4096)]"
  by (simp add: parse_runs.simps py_slice_def unpack_2L_pack)

lemma CrashDump_init_two_run: "CrashDump_init two_run_file ArchX86 = Inr two_run_dump"
  unfolding CrashDump_init_def Let_def header_two_run two_run_dirbase two_run_process_head
    two_run_runs
  by (simp add: py_slice_def unpack_2L_pack two_run_parse_runs two_run_dump_def)

lemma one_run_read_below:
  "pos < 4096 \<Longrightarrow> read (one_run_dump pages archc) pos len = Inl (OutsideRangesException pos 4096)"
  by (simp add: read_def one_run_dump_def CrashDump_read_def)

lemma one_run_read_inside:
  "4096 \<le> pos \<Longrightarrow> pos \<le> 12288 \<Longrightarrow>
   read (one_run_dump pages archc) pos len = file_read (one_run_file pages) pos len"
  by (simp add: read_def one_run_dump_def CrashDump_read_def)

lemma one_run_read_above:
  "12288 < pos \<Longrightarrow>
   read (one_run_dump pages archc) pos len = file_read (one_run_file pages) pos len"
  by (simp add: read_def one_run_dump_def CrashDump_read_def)

lemma one_run_file_read:
  "4096 \<le> pos \<Longrightarrow> 0 \<le> len \<Longrightarrow>
   file_read (one_run_file pages) pos len = Inr (take (nat len) (drop (nat (pos - 4096)) pages))"
  by (simp add: file_read_def one_run_file_def length_crash_header nat_diff_distrib)

text \<open>
  C1. A dump built from a header of one run (first page 1, two pages) is asked for physical
  address 12288, the first address after the run. The specification expects
  \<open>OutsideRangesException\<close> there; the read returns the bytes at file offset 12288
  instead (whatever follows the two pages in the file). The reads inside the run and the
  exception below address 4096 are as specified (\<open>one_run_read_inside\<close>,
  \<open>one_run_read_below\<close>); above 12288 the scan ends without an exception as well
  (\<open>one_run_read_above\<close>).
\<close>

theorem CrashDump_read_one_run_12288:
  "rbind (CrashDump_init (one_run_file pages) archc) (\<lambda>d. read d 12288 4096)
     = Inr (take 4096 (drop 8192 pages))"
  by (simp add: CrashDump_init_one_run one_run_read_inside one_run_file_read)

text \<open>
  C2, as stated, fails: when the directory entry lies below the first run, \<open>vtop\<close> fails
  with the very \<open>OutsideRangesException\<close> that the read of that physical address raises,
  not with an exception of its own around it.
\<close>

theorem vtop_error_not_wrapped:
  "CrashDump_init (one_run_file []) ArchX86 = Inr (one_run_dump [] ArchX86) \<and>
   read (one_run_dump [] ArchX86) 0 4 = Inl (OutsideRangesException 0 4096) \<and>
   vtop (one_run_dump [] ArchX86) 0 = Inl (OutsideRangesException 0 4096)"
proof -
  have p: "ArchX86_parse_vaddr 0 = (0, 0, 0)"
    unfolding ArchX86_parse_vaddr_eq by simp
  have r: "read (one_run_dump [] ArchX86) 0 4 = Inl (OutsideRangesException 0 4096)"
    by (simp add: one_run_read_below)
  have "vtop (one_run_dump [] ArchX86) 0 = Inl (OutsideRangesException 0 4096)"
    unfolding vtop_def ArchX86_vtop_def p prod.case using r by (simp add: one_run_dump_def)
  with r CrashDump_init_one_run show ?thesis by blast
qed

text \<open>
  C2, amended. When the read of the directory entry or of the table entry raises
  \<open>OutsideRangesException\<close>, \<open>ArchX86.vtop\<close> fails with that same exception, unchanged.
\<close>

theorem ArchX86_vtop_propagates_OutsideRanges:
  assumes "ArchX86_parse_vaddr addr = (pdi, pti, offset)"
    and "read m (dirbase m + pdi * 4) 4 = Inl (OutsideRangesException p s) \<or>
         (\<exists>raw1 pde0. read m (dirbase m + pdi * 4) 4 = Inr raw1 \<and> unpack_L raw1 = Inr pde0 \<and>
            read m ((pde0 AND 0xfffff000) + pti * 4) 4 = Inl (OutsideRangesException p s))"
  shows "ArchX86_vtop m addr = Inl (OutsideRangesException p s)"
  using assms(2) unfolding ArchX86_vtop_def assms(1) prod.case Let_def by auto

lemma two_run_file_read:
  "4096 \<le> pos \<Longrightarrow> 0 \<le> len \<Longrightarrow>
   file_read two_run_file pos len =
     Inr (take (nat len) (drop (nat (pos - 4096))
       ((pack_L 0 @ replicate 4092 0x11) @ replicate 4096 0x22 @ replicate 4096 0x44)))"
  by (simp add: file_read_def two_run_file_def length_crash_header nat_diff_distrib)

lemma two_run_read_pde: "read two_run_dump 0x1000 4 = Inr (pack_L 0)"
  by (simp add: read_def two_run_dump_def CrashDump_read_def two_run_file_read)

lemma two_run_read_below:
  "pos < 4096 \<Longrightarrow> read two_run_dump pos len = Inl (OutsideRangesException pos 4096)"
  by (simp add: read_def two_run_dump_def CrashDump_read_def)

lemma one_run_dirbase_0: "dirbase (one_run_dump pages archc) = 0"
  by (simp add: one_run_dump_def)

lemma parse_0: "ArchX86_parse_vaddr 0 = (0, 0, 0)"
  unfolding ArchX86_parse_vaddr_eq by simp

lemma parse_3000: "ArchX86_parse_vaddr 0x3000 = (0, 3, 0)"
  unfolding ArchX86_parse_vaddr_eq by simp

theorem ArchX86_vtop_propagates_OutsideRanges_witness:
  "read (one_run_dump [] ArchX86) (dirbase (one_run_dump [] ArchX86) + 0 * 4) 4
     = Inl (OutsideRangesException 0 4096) \<and>
   ArchX86_vtop (one_run_dump [] ArchX86) 0 = Inl (OutsideRangesException 0 4096) \<and>
   read two_run_dump (dirbase two_run_dump + 0 * 4) 4 = Inr (pack_L 0) \<and>
   unpack_L (pack_L 0) = Inr 0 \<and>
   read two_run_dump ((0 AND 0xfffff000) + 3 * 4) 4 = Inl (OutsideRangesException 12 4096) \<and>
   ArchX86_vtop two_run_dump 0x3000 = Inl (OutsideRangesException 12 4096)"
proof -
  have a: "read (one_run_dump [] ArchX86) (dirbase (one_run_dump [] ArchX86) + 0 * 4) 4
             = Inl (OutsideRangesException 0 4096)"
    unfolding one_run_dirbase_0 by (simp add: one_run_read_below)
  have b: "read two_run_dump (dirbase two_run_dump + 0 * 4) 4 = Inr (pack_L 0)"
    using two_run_read_pde by (simp add: two_run_dump_def)
  have c: "unpack_L (pack_L 0) = Inr 0"
    by (simp add: unpack_pack_L)
  have d: "read two_run_dump ((0 AND 0xfffff000) + 3 * 4) 4 = Inl (OutsideRangesException 12 4096)"
    by (simp add: two_run_read_below)
  have "ArchX86_vtop (one_run_dump [] ArchX86) 0 = Inl (OutsideRangesException 0 4096)"
    by (rule ArchX86_vtop_propagates_OutsideRanges [OF parse_0 disjI1 [OF a]])
  moreover have "ArchX86_vtop two_run_dump 0x3000 = Inl (OutsideRangesException 12 4096)"
    by (rule ArchX86_vtop_propagates_OutsideRanges [OF parse_3000 disjI2]) (use b c d in blast)
  ultimately show ?thesis using a b c d by blast
qed

theorem CrashDump_read_inclusive_upper_bound_witness:
  "ranges two_run_dump = [] @ (4096, 4096, 8192) # [(12288, 16384, 4096)] \<and>
   passes 12288 [] \<and> (12288::int) = 4096 + 8192 \<and>
   contiguous 4096 (ranges two_run_dump) \<and>
   CrashDump_read two_run_dump 12288 4 = file_read (mem two_run_dump) (4096 + (12288 - 4096)) 4 \<and>
   (4096::int) + (12288 - 4096) = 12288 \<and>
   CrashDump_read two_run_dump 12288 4 = Inr (replicate 4 0x44)"
proof -
  have r: "ranges two_run_dump = [] @ (4096, 4096, 8192) # [(12288, 16384, 4096)]"
    by (simp add: two_run_dump_def)
  have c: "contiguous 4096 (ranges two_run_dump)"
    by (simp add: two_run_dump_def)
  have m: "mem two_run_dump = two_run_file"
    by (simp add: two_run_dump_def)
  have p: "passes 12288 []" by simp
  have z: "(0::int) \<le> 8192" by simp
  have q: "(12288::int) = 4096 + 8192" by simp
  note th = CrashDump_read_inclusive_upper_bound [OF r p z q, of 4]
  have t: "CrashDump_read two_run_dump 12288 4
             = file_read (mem two_run_dump) (4096 + (12288 - 4096)) 4"
    using th by (rule conjunct1)
  have "contiguous 4096 (ranges two_run_dump) \<and>
          [(12288, 16384, 4096)] = (12288, 16384, 4096) # []
        \<longrightarrow> (4096::int) + (12288 - 4096) = 12288"
    using th by blast
  with c have e: "(4096::int) + (12288 - 4096) = 12288" by blast
  have "CrashDump_read two_run_dump 12288 4 = Inr (replicate 4 0x44)"
    unfolding t m by (simp add: two_run_file_read)
  with r c t e p q show ?thesis by blast
qed

section \<open>Decoding of timestamps\<close>

lemma mod_div_digit:
  assumes "0 < b" and "0 \<le> c"
  shows "(a::int) mod (b * c) div b = a div b mod c"
proof -
  have "a mod (b * c) = b * (a div b mod c) + a mod b"
    using assms(2) by (rule zmod_zmult2_eq)
  moreover have "(b * (a div b mod c) + a mod b) div b = a div b mod c"
    using assms(1) by (simp add: div_pos_pos_trivial)
  ultimately show ?thesis by simp
qed

lemma residual_is_mod: "(t::int) - t div d * d = t mod d"
  by (simp add: minus_div_mult_eq_mod)

lemma hours_digit: "(t::int) mod 864000000000 div 36000000000 = t div 36000000000 mod 24"
  using mod_div_digit [of 36000000000 24 t] by simp

lemma minutes_digit: "(t::int) mod 36000000000 div 600000000 = t div 600000000 mod 60"
  using mod_div_digit [of 600000000 60 t] by simp

lemma seconds_digit: "(t::int) mod 600000000 div 10000000 = t div 10000000 mod 60"
  using mod_div_digit [of 10000000 60 t] by simp

lemma micro_digit: "(t::int) mod 10000000 div 100 = t div 100 mod 100000"
  using mod_div_digit [of 100 100000 t] by simp

lemma mod_mod_hours: "(t::int) mod 864000000000 mod 36000000000 = t mod 36000000000"
  by (rule mod_mod_cancel) simp

lemma mod_mod_minutes: "(t::int) mod 36000000000 mod 600000000 = t mod 600000000"
  by (rule mod_mod_cancel) simp

lemma mod_mod_seconds: "(t::int) mod 600000000 mod 10000000 = t mod 10000000"
  by (rule mod_mod_cancel) simp

lemma mod_mod_hours_minutes: "(t::int) mod 864000000000 mod 600000000 = t mod 600000000"
  by (rule mod_mod_cancel) simp

lemma mod_mod_hours_seconds: "(t::int) mod 864000000000 mod 10000000 = t mod 10000000"
  by (rule mod_mod_cancel) simp

lemma mod_mod_minutes_seconds: "(t::int) mod 36000000000 mod 10000000 = t mod 10000000"
  by (rule mod_mod_cancel) simp

lemma days_in_month_1601_1: "days_in_month 1601 1 = 31"
  by (simp add: days_in_month_def DAYS_IN_MONTH_def)

lemma ymd2ord_1601_1_1: "ymd2ord 1601 1 1 = 584389"
  by (simp add: ymd2ord_def days_before_year_def days_before_month_def DAYS_BEFORE_MONTH_def
      is_leap_def)

lemma datetime_new_ok:
  "0 \<le> hh \<Longrightarrow> hh \<le> 23 \<Longrightarrow> 0 \<le> mm \<Longrightarrow> mm \<le> 59 \<Longrightarrow> 0 \<le> ss \<Longrightarrow> ss \<le> 59 \<Longrightarrow>
   0 \<le> us \<Longrightarrow> us \<le> 999999 \<Longrightarrow>
   datetime_new 1601 1 1 hh mm ss us
     = Inr \<lparr>year = 1601, month = 1, day = 1, hour = hh, minute = mm, second = ss,
            microsecond = us\<rparr>"
  by (simp add: datetime_new_def days_in_month_1601_1)

lemma datetime_new_1601:
  "datetime_new 1601 1 1 (t mod 864000000000 div 36000000000) (t mod 36000000000 div 600000000)
     (t mod 600000000 div 10000000) (t mod 10000000 div 100)
   = Inr \<lparr>year = 1601, month = 1, day = 1,
          hour = t mod 864000000000 div 36000000000,
          minute = t mod 36000000000 div 600000000,
          second = t mod 600000000 div 10000000,
          microsecond = t mod 10000000 div 100\<rparr>"
proof -
  have h: "0 \<le> t div 36000000000 mod 24" "t div 36000000000 mod 24 < 24" by simp_all
  have m: "0 \<le> t div 600000000 mod 60" "t div 600000000 mod 60 < 60" by simp_all
  have s: "0 \<le> t div 10000000 mod 60" "t div 10000000 mod 60 < 60" by simp_all
  have u: "0 \<le> t div 100 mod 100000" "t div 100 mod 100000 < 100000" by simp_all
  have h': "t div 36000000000 mod 24 \<le> 23" using h(2) by linarith
  have m': "t div 600000000 mod 60 \<le> 59" using m(2) by linarith
  have s': "t div 10000000 mod 60 \<le> 59" using s(2) by linarith
  have u': "t div 100 mod 100000 \<le> 999999" using u(2) by linarith
  show ?thesis
    unfolding hours_digit minutes_digit seconds_digit micro_digit
    by (rule datetime_new_ok [OF h(1) h' m(1) m' s(1) s' u(1) u'])
qed


lemma datetime_add_1601:
  assumes "0 \<le> days" and "days \<le> 3067670"
  shows "datetime_add \<lparr>year = 1601, month = 1, day = 1, hour = hh, minute = mm, second = ss,
            microsecond = us\<rparr> days
         = (case ord2ymd (584389 + days) of (y, m, d) \<Rightarrow>
              Inr \<lparr>year = y, month = m, day = d, hour = hh, minute = mm, second = ss,
                   microsecond = us\<rparr>)"
  using assms by (simp add: datetime_add_def ymd2ord_1601_1_1 Let_def split: prod.splits)

lemma datetime_add_1601_overflow:
  assumes "3067670 < days"
  shows "datetime_add \<lparr>year = 1601, month = 1, day = 1, hour = hh, minute = mm, second = ss,
            microsecond = us\<rparr> days = Inl OverflowError"
  using assms by (simp add: datetime_add_def ymd2ord_1601_1_1 Let_def)

lemma wintime_body:
  assumes "unpack_2L raw = Inr (lo, hi)"
  shows "wintime raw =
     (let t = 4294967296 * hi + lo in
      rbind (timedelta (t div 864000000000)) (\<lambda>td.
      rbind (datetime_new 1601 1 1 (t mod 864000000000 div 36000000000)
               (t mod 36000000000 div 600000000) (t mod 600000000 div 10000000)
               (t mod 10000000 div 100)) (\<lambda>dt.
      rbind (datetime_add dt td) (\<lambda>retval. Inr (if t = 0 then None else Some retval)))))"
proof -
  have p: "push_bit 32 hi + lo = 4294967296 * hi + lo"
    by (simp add: push_bit_eq_mult)
  show ?thesis
    unfolding wintime_def assms rbind_Inr prod.case Let_def p residual_is_mod
      mod_mod_hours mod_mod_minutes mod_mod_seconds mod_mod_hours_minutes
      mod_mod_hours_seconds mod_mod_minutes_seconds
    by (rule refl)
qed

lemma timedelta_ok: "\<bar>days\<bar> \<le> 999999999 \<Longrightarrow> timedelta days = Inr days"
  by (simp add: timedelta_def)

lemma wintime_of_ticks:
  assumes u: "unpack_2L raw = Inr (lo, hi)"
    and b: "0 \<le> lo" "lo < 4294967296" "0 \<le> hi" "hi < 4294967296"
    and t: "t = 4294967296 * hi + lo"
  shows "wintime raw =
     (if t = 0 then Inr None
      else if t div 864000000000 \<le> 3067670
      then (case ord2ymd (584389 + t div 864000000000) of (y, m, d) \<Rightarrow>
              Inr (Some \<lparr>year = y, month = m, day = d,
                     hour = t mod 864000000000 div 36000000000,
                     minute = t mod 36000000000 div 600000000,
                     second = t mod 600000000 div 10000000,
                     microsecond = t mod 10000000 div 100\<rparr>))
      else Inl OverflowError)"
proof -
  have t0: "0 \<le> t" and t1: "t \<le> 18446744073709551615" using b t by simp_all
  have d0: "0 \<le> t div 864000000000" using t0 by simp
  have "t div 864000000000 \<le> 18446744073709551615 div 864000000000"
    using t1 by (rule zdiv_mono1) simp
  then have d1: "t div 864000000000 \<le> 21350398" by simp
  have td: "timedelta (t div 864000000000) = Inr (t div 864000000000)"
    using d0 d1 by (intro timedelta_ok) simp
  note body = wintime_body [OF u, folded t, unfolded Let_def td rbind_Inr datetime_new_1601]
  show ?thesis
  proof (cases "t div 864000000000 \<le> 3067670")
    case True
    obtain y m d where o: "ord2ymd (584389 + t div 864000000000) = (y, m, d)"
      by (cases "ord2ymd (584389 + t div 864000000000)")
    show ?thesis
      unfolding body datetime_add_1601 [OF d0 True] o prod.case rbind_Inr if_P [OF True]
      by (rule if_distrib)
  next
    case False
    then have "3067670 < t div 864000000000" by simp
    from datetime_add_1601_overflow [OF this] have "wintime raw = Inl OverflowError"
      unfolding body by simp
    moreover have "t \<noteq> 0" using False by auto
    ultimately show ?thesis using False by simp
  qed
qed

lemma unpack_2L_bytes:
  "unpack_2L [b0, b1, b2, b3, b4, b5, b6, b7] =
     Inr (uint b0 + 256 * uint b1 + 65536 * uint b2 + 16777216 * uint b3,
          uint b4 + 256 * uint b5 + 65536 * uint b6 + 16777216 * uint b7)"
  by (simp add: unpack_2L_def)

lemma dword_bounds:
  fixes b0 b1 b2 b3 :: byte
  shows "0 \<le> uint b0 + 256 * uint b1 + 65536 * uint b2 + 16777216 * uint b3"
    and "uint b0 + 256 * uint b1 + 65536 * uint b2 + 16777216 * uint b3 < 4294967296"
proof -
  have "uint b0 < 256" "uint b1 < 256" "uint b2 < 256" "uint b3 < 256"
    using uint_bounded [of b0] uint_bounded [of b1] uint_bounded [of b2] uint_bounded [of b3]
    by simp_all
  moreover have "0 \<le> uint b0" "0 \<le> uint b1" "0 \<le> uint b2" "0 \<le> uint b3" by simp_all
  ultimately show "0 \<le> uint b0 + 256 * uint b1 + 65536 * uint b2 + 16777216 * uint b3"
    and "uint b0 + 256 * uint b1 + 65536 * uint b2 + 16777216 * uint b3 < 4294967296"
    by linarith+
qed

lemma wintime_wrong_length:
  assumes "length raw \<noteq> 8"
  shows "wintime raw = Inl StructError"
proof -
  have "unpack_2L raw = Inl StructError"
    using assms by (simp add: unpack_2L_def)
  then show ?thesis
    unfolding wintime_def by (simp only: rbind_Inl)
qed

lemma ord2ymd_1601_01_02: "ord2ymd (584389 + 1) = (1601, 1, 2)"
  by (simp add: ord2ymd_def Let_def DAYS_BEFORE_MONTH_def DAYS_IN_MONTH_def drop_bit_eq_div)

lemma ord2ymd_1604_02_29: "ord2ymd (584389 + 1154) = (1604, 2, 29)"
  by (simp add: ord2ymd_def Let_def DAYS_BEFORE_MONTH_def DAYS_IN_MONTH_def drop_bit_eq_div)

lemma ord2ymd_1601_01_01: "ord2ymd (584389 + 0) = (1601, 1, 1)"
  by (simp add: ord2ymd_def Let_def DAYS_BEFORE_MONTH_def DAYS_IN_MONTH_def drop_bit_eq_div)



lemma wintime_bytes:
  "wintime [b0, b1, b2, b3, b4, b5, b6, b7] =
     (let ticks = 4294967296 * (uint b4 + 256 * uint b5 + 65536 * uint b6 + 16777216 * uint b7)
                  + (uint b0 + 256 * uint b1 + 65536 * uint b2 + 16777216 * uint b3)
      in if ticks = 0 then Inr None
         else if ticks div 864000000000 \<le> 3067670
         then (case ord2ymd (584389 + ticks div 864000000000) of (y, m, d) \<Rightarrow>
                 Inr (Some \<lparr>year = y, month = m, day = d,
                        hour = ticks mod 864000000000 div 36000000000,
                        minute = ticks mod 36000000000 div 600000000,
                        second = ticks mod 600000000 div 10000000,
                        microsecond = ticks mod 10000000 div 100\<rparr>))
         else Inl OverflowError)"
  unfolding Let_def
  by (rule wintime_of_ticks [OF unpack_2L_bytes dword_bounds dword_bounds refl])

lemma wintime_zero: "wintime [0, 0, 0, 0, 0, 0, 0, 0] = Inr None"
  unfolding wintime_bytes by simp

lemma wintime_one_day:
  "wintime [0x00, 0xC0, 0x69, 0x2A, 0xC9, 0x00, 0x00, 0x00] =
     Inr (Some \<lparr>year = 1601, month = 1, day = 2, hour = 0, minute = 0, second = 0,
            microsecond = 0\<rparr>)"
  unfolding wintime_bytes using ord2ymd_1601_01_02 by simp

text \<open>
  C7. \<open>wintime\<close> reads its eight bytes as a little-endian count of ticks of 100
  nanoseconds since 1601-01-01. Zero gives \<open>None\<close> and one day of ticks gives 1601-01-02
  (\<open>wintime_zero\<close>, \<open>wintime_one_day\<close>), but the last residual is divided by 100 and
  not by 10: five million ticks, half a second, are decoded as 50000 microseconds.
\<close>

theorem wintime_half_second:
  "wintime [0x40, 0x4B, 0x4C, 0x00, 0x00, 0x00, 0x00, 0x00] =
     Inr (Some \<lparr>year = 1601, month = 1, day = 1, hour = 0, minute = 0, second = 0,
            microsecond = 50000\<rparr>)"
  unfolding wintime_bytes using ord2ymd_1601_01_01 by simp

section \<open>Decoding of the kernel structures\<close>

lemma decode_ascii_filter:
  "decode_image_name bs =
     (if \<forall>b \<in> set bs. uint b < 128
      then Inr (map (\<lambda>b. char_of (uint b)) (filter (\<lambda>b. b \<noteq> 0) bs))
      else Inl UnicodeDecodeError)"
proof -
  have "(\<forall>b \<in> set (filter (\<lambda>b. b \<noteq> 0) bs). uint b < 128) \<longleftrightarrow> (\<forall>b \<in> set bs. uint b < 128)"
    by auto
  then show ?thesis
    by (simp add: decode_image_name_def decode_ascii_def list_all_iff)
qed

lemma trailing_nul_only:
  assumes "0 \<notin> set name"
  shows "filter (\<lambda>b. b \<noteq> 0) (name @ replicate n 0) = name"
    and "spec_trim_trailing_nul (name @ replicate n 0) = name"
proof -
  have f: "filter (\<lambda>b. b \<noteq> 0) name = name"
    using assms by (induction name) auto
  show "filter (\<lambda>b. b \<noteq> 0) (name @ replicate n 0) = name"
    using f by simp
  have "dropWhile (\<lambda>b. b = 0) (rev name) = rev name"
    using assms by (cases "rev name") auto
  moreover have "dropWhile (\<lambda>b. b = 0) (replicate n (0::byte) @ rev name)
                   = dropWhile (\<lambda>b. b = 0) (rev name)"
    by (induction n) auto
  ultimately show "spec_trim_trailing_nul (name @ replicate n 0) = name"
    by (simp add: spec_trim_trailing_nul_def)
qed

lemma unpack_L_4: "length bs = 4 \<Longrightarrow> \<exists>x. unpack_L bs = Inr x"
  by (cases bs rule: unpack_L.cases) auto

lemma unpack_2L_8: "length bs = 8 \<Longrightarrow> \<exists>a b. unpack_2L bs = Inr (a, b)"
proof -
  assume l: "length bs = 8"
  then obtain a where a: "unpack_L (take 4 bs) = Inr a" using unpack_L_4 [of "take 4 bs"] by auto
  from l obtain b where b: "unpack_L (drop 4 bs) = Inr b" using unpack_L_4 [of "drop 4 bs"] by auto
  show ?thesis using l a b by (simp add: unpack_2L_def)
qed

lemma length_py_slice: "b \<le> length xs \<Longrightarrow> length (py_slice xs a b) = b - a"
  by (simp add: py_slice_def)

lemma ListEntry_init_8: "length bs = 8 \<Longrightarrow> \<exists>e. ListEntry_init bs = Inr e"
  using unpack_2L_8 [of bs] by (auto simp: ListEntry_init_def)

lemma KProcess_init_ok:
  assumes "0x1c \<le> length rawdata"
  shows "\<exists>kp. KProcess_init rawdata = Inr kp"
proof -
  obtain plh where a: "ListEntry_init (py_slice rawdata 0x10 0x18) = Inr plh"
    using ListEntry_init_8 [of "py_slice rawdata 0x10 0x18"] assms by (auto simp: length_py_slice)
  obtain dtb where b: "unpack_L (py_slice rawdata 0x18 0x1c) = Inr dtb"
    using unpack_L_4 [of "py_slice rawdata 0x18 0x1c"] assms by (auto simp: length_py_slice)
  show ?thesis by (simp add: KProcess_init_def a b)
qed

lemma EProcess_init_non_ascii:
  assumes "0x17b \<le> length rawdata"
    and "\<exists>b \<in> set (py_slice rawdata 0x16c 0x17b). 128 \<le> uint b"
  shows "EProcess_init rawdata base = Inl UnicodeDecodeError"
proof -
  obtain kp where a: "KProcess_init (py_slice rawdata 0x0 0x98) = Inr kp"
    using KProcess_init_ok [of "py_slice rawdata 0x0 0x98"] assms(1) by (auto simp: length_py_slice)
  obtain links where b: "ListEntry_init (py_slice rawdata 0xb8 0xc0) = Inr links"
    using ListEntry_init_8 [of "py_slice rawdata 0xb8 0xc0"] assms(1)
    by (auto simp: length_py_slice)
  have c: "unpack_15s (py_slice rawdata 0x16c 0x17b) = Inr (py_slice rawdata 0x16c 0x17b)"
    using assms(1) by (simp add: unpack_15s_def length_py_slice)
  have d: "decode_image_name (py_slice rawdata 0x16c 0x17b) = Inl UnicodeDecodeError"
    using assms(2) unfolding decode_ascii_filter by (auto simp: not_less)
  show ?thesis
    by (simp add: EProcess_init_def a b c d)
qed

lemma decode_notepad: "decode_image_name notepad_field = Inr ''notepad.exe''"
  by code_simp

section \<open>Walking the process list\<close>

lemma pslist_loop_linked:
  "linked_from d (flink e) ps \<Longrightarrow>
   pslist_loop d (process_head d) e ret = Some (Inr (ret @ ps))"
proof (induction ps arbitrary: e ret)
  case Nil
  then show ?case by (subst pslist_loop.simps) simp
next
  case (Cons p ps)
  from Cons.prems have a: "flink e \<noteq> process_head d" and b: "read_process d (flink e) = Inr p"
    and c: "linked_from d (flink (active_process_links p)) ps"
    by simp_all
  show ?case
    by (subst pslist_loop.simps) (simp add: a b Cons.IH [OF c])
qed

lemma pslist_linked:
  assumes "read_list_head d = Inr e0" and "linked_from d (flink e0) ps"
  shows "pslist d = Some (Inr ps)"
  using pslist_loop_linked [OF assms(2), of "[]"] by (simp add: pslist_def assms(1))

text \<open>
  C3. On a circular list of four nodes (the head and three processes) whose last forward
  link is the address of the head, \<open>pslist\<close> terminates and returns exactly the three
  process records, without the head, in the order of the forward links.
\<close>

theorem pslist_circular_list:
  assumes "read_list_head d = Inr e0"
    and "flink e0 \<noteq> process_head d"
    and "read_process d (flink e0) = Inr p1"
    and "flink (active_process_links p1) \<noteq> process_head d"
    and "read_process d (flink (active_process_links p1)) = Inr p2"
    and "flink (active_process_links p2) \<noteq> process_head d"
    and "read_process d (flink (active_process_links p2)) = Inr p3"
    and "flink (active_process_links p3) = process_head d"
  shows "pslist d = Some (Inr [p1, p2, p3]) \<and> length [p1, p2, p3] = 3"
proof -
  have "linked_from d (flink e0) [p1, p2, p3]"
    using assms(2-8) by simp
  from pslist_linked [OF assms(1) this] show ?thesis by simp
qed

subsection \<open>The walk on the synthetic image\<close>

lemma pack_L_0: "pack_L 0 = replicate 4 0"
  by (simp add: pack_L_def numeral_eq_Suc)

lemma zeros_8: "replicate 8 (0::byte) = pack_L 0 @ pack_L 0"
  unfolding pack_L_0 by (simp flip: replicate_add)

lemma unpack_2L_zeros: "unpack_2L (replicate 8 0) = Inr (0, 0)"
  unfolding zeros_8 by (simp add: unpack_2L_pack)

lemma unpack_L_zeros: "unpack_L (replicate 4 0) = Inr 0"
  using unpack_pack_L [of 0] by (simp add: pack_L_0)

lemma length_process_block:
  "length name = 15 \<Longrightarrow> length ct = 8 \<Longrightarrow> length et = 8 \<Longrightarrow>
   length (process_block p name fl bl ct et) = 728"
  by (simp add: process_block_def)

lemma KProcess_init_zeros:
  "KProcess_init (replicate 152 0) =
     Inr \<lparr>profile_list_head = \<lparr>flink = 0, blink = 0\<rparr>, directory_table_base = 0\<rparr>"
  by (simp add: KProcess_init_def ListEntry_init_def py_slice_def unpack_2L_zeros unpack_L_zeros)

lemma EProcess_init_block:
  assumes "length name = 15" and "length ct = 8" and "length et = 8"
    and "0 \<le> p" "p < 4294967296" "0 \<le> fl" "fl < 4294967296" "0 \<le> bl" "bl < 4294967296"
    and "decode_image_name name = Inr nm"
    and "wintime ct = Inr c" and "wintime et = Inr e"
  shows "EProcess_init (process_block p name fl bl ct et) base =
     Inr \<lparr>base_addr = base,
          pcb = \<lparr>profile_list_head = \<lparr>flink = 0, blink = 0\<rparr>, directory_table_base = 0\<rparr>,
          active_process_links = \<lparr>flink = fl, blink = bl\<rparr>,
          image_name = nm, pid = p, create_time = c, exit_time = e\<rparr>"
proof -
  let ?b = "process_block p name fl bl ct et"
  have k: "py_slice ?b 0x0 0x98 = replicate 152 0"
    by (simp add: process_block_def py_slice_def)
  have l: "py_slice ?b 0xb8 0xc0 = pack_L fl @ pack_L bl"
    using assms(2,3) by (simp add: process_block_def py_slice_def)
  have n: "py_slice ?b 0x16c 0x17b = name"
    using assms(1,2,3) by (simp add: process_block_def py_slice_def)
  have i: "py_slice ?b 0xb4 0xb8 = pack_L p"
    using assms(2,3) by (simp add: process_block_def py_slice_def)
  have t1: "py_slice ?b 0xa0 0xa8 = ct"
    using assms(2,3) by (simp add: process_block_def py_slice_def)
  have t2: "py_slice ?b 0xa8 0xb0 = et"
    using assms(2,3) by (simp add: process_block_def py_slice_def)
  have u: "unpack_15s name = Inr name"
    using assms(1) by (simp add: unpack_15s_def)
  have le: "ListEntry_init (pack_L fl @ pack_L bl) = Inr \<lparr>flink = fl, blink = bl\<rparr>"
    using assms(6-9) by (simp add: ListEntry_init_def unpack_2L_pack)
  have pi: "unpack_L (pack_L p) = Inr p"
    using assms(4,5) by (rule unpack_pack_L)
  show ?thesis
    by (simp add: EProcess_init_def k l n i t1 t2 u le pi KProcess_init_zeros assms(10-12))
qed

lemma process_dump_fields:
  "dirbase process_dump = 0" "process_head process_dump = 0x10" "cls process_dump = RawDump"
  "mem process_dump = process_image" "arch process_dump = ArchX86"
  by (simp_all add: process_dump_def RawDump_init_def)

lemma read_process_dump_pde: "read process_dump 0 4 = Inr (pack_L 0x1007)"
  by (simp add: read_RawDump process_dump_fields process_image_def file_read_def)

lemma read_process_dump_pte: "read process_dump 0x1000 4 = Inr (pack_L 0x2007)"
  by (simp add: read_RawDump process_dump_fields process_image_def file_read_def)

lemma read_process_dump_page:
  "0 \<le> v \<Longrightarrow> 0 \<le> n \<Longrightarrow>
   read process_dump (8192 + v) n = Inr (take (nat n) (drop (nat v) process_page))"
  by (simp add: read_RawDump process_dump_fields process_image_def file_read_def nat_add_distrib)

lemma parse_vaddr_low:
  assumes "0 \<le> v" and "v < 4096"
  shows "ArchX86_parse_vaddr v = (0, 0, v)"
proof -
  have "v div 4096 = 0" "v div 4194304 = 0" "v mod 4096 = v"
    using assms by simp_all
  then show ?thesis unfolding ArchX86_parse_vaddr_eq by simp
qed

lemma vtop_process_dump:
  assumes "0 \<le> v" and "v < 4096"
  shows "vtop process_dump v = Inr (8192 + v)"
proof -
  have m1: "(0x1007::int) AND 0xfffff000 = 0x1000"
    using entry_flags_masked [of "0x1000" "0x7"] by simp
  have m2: "(0x2007::int) AND 0xfffff000 = 0x2000"
    using entry_flags_masked [of "0x2000" "0x7"] by simp
  show ?thesis
    unfolding vtop_def ArchX86_vtop_def parse_vaddr_low [OF assms] prod.case
    using read_process_dump_pde read_process_dump_pte
    by (simp add: process_dump_fields unpack_pack_L m1 m2)
qed

lemma length_system_field: "length system_field = 15"
  by (simp add: system_field_def)

lemma length_smss_field: "length smss_field = 15"
  by (simp add: smss_field_def)

lemma length_notepad_field: "length notepad_field = 15"
  by (simp add: notepad_field_def)

lemma length_ticks: "length one_day_ticks = 8" "length zero_ticks = 8"
  by (simp_all add: one_day_ticks_def zero_ticks_def)

lemmas block_lengths =
  length_process_block [OF length_system_field length_ticks]
  length_process_block [OF length_smss_field length_ticks]
  length_process_block [OF length_notepad_field length_ticks]

lemma page_head: "take 8 (drop 0x10 process_page) = pack_L 0x1b8 @ pack_L 0x7b8"
  by (simp add: process_page_def)

lemma page_block1:
  "take 728 (drop 0x100 process_page)
     = process_block 4 system_field 0x4b8 0x10 one_day_ticks zero_ticks"
  by (simp add: process_page_def block_lengths)

lemma page_block2:
  "take 728 (drop 0x400 process_page)
     = process_block 368 smss_field 0x7b8 0x1b8 one_day_ticks zero_ticks"
  by (simp add: process_page_def block_lengths)

lemma page_block3:
  "take 728 (drop 0x700 process_page)
     = process_block 1234 notepad_field 0x10 0x4b8 one_day_ticks zero_ticks"
  by (simp add: process_page_def block_lengths)

lemma wintime_one_day_ticks:
  "wintime one_day_ticks =
     Inr (Some \<lparr>year = 1601, month = 1, day = 2, hour = 0, minute = 0, second = 0,
            microsecond = 0\<rparr>)"
  unfolding one_day_ticks_def by (rule wintime_one_day)

lemma wintime_zero_ticks: "wintime zero_ticks = Inr None"
  unfolding zero_ticks_def by (rule wintime_zero)

lemma decode_system: "decode_image_name system_field = Inr ''System''"
  by code_simp

lemma decode_smss: "decode_image_name smss_field = Inr ''smss.exe''"
  by code_simp

lemma EProcess_init_example:
  assumes "length name = 15" and "decode_image_name name = Inr nm"
    and "0 \<le> p" "p < 4294967296" "0 \<le> fl" "fl < 4294967296" "0 \<le> bl" "bl < 4294967296"
  shows "EProcess_init (process_block p name fl bl one_day_ticks zero_ticks) base
           = Inr (decoded_process base nm p fl bl)"
  unfolding decoded_process_def
  by (rule EProcess_init_block [OF assms(1) length_ticks assms(3-8) assms(2)
        wintime_one_day_ticks wintime_zero_ticks])

lemma process_dump_head:
  "read_list_head process_dump = Inr \<lparr>flink = 0x1b8, blink = 0x7b8\<rparr>"
proof -
  have v: "vtop process_dump 0x10 = Inr 8208"
    using vtop_process_dump [of "0x10"] by simp
  have r: "read process_dump 8208 8 = Inr (pack_L 0x1b8 @ pack_L 0x7b8)"
    using read_process_dump_page [of "0x10" 8] by (simp add: page_head)
  show ?thesis
    by (simp add: read_list_head_def process_dump_fields v r ListEntry_init_def unpack_2L_pack)
qed

lemma process_dump_first:
  "read_process process_dump 0x1b8 = Inr (decoded_process 0x100 ''System'' 4 0x4b8 0x10)"
proof -
  have v: "vtop process_dump 0x100 = Inr 8448"
    using vtop_process_dump [of "0x100"] by simp
  have r: "read process_dump 8448 728
             = Inr (process_block 4 system_field 0x4b8 0x10 one_day_ticks zero_ticks)"
    using read_process_dump_page [of "0x100" 728] by (simp add: page_block1)
  show ?thesis
    by (simp add: read_process_def v r EProcess_init_example length_system_field decode_system)
qed

lemma process_dump_second:
  "read_process process_dump 0x4b8 = Inr (decoded_process 0x400 ''smss.exe'' 368 0x7b8 0x1b8)"
proof -
  have v: "vtop process_dump 0x400 = Inr 9216"
    using vtop_process_dump [of "0x400"] by simp
  have r: "read process_dump 9216 728
             = Inr (process_block 368 smss_field 0x7b8 0x1b8 one_day_ticks zero_ticks)"
    using read_process_dump_page [of "0x400" 728] by (simp add: page_block2)
  show ?thesis
    by (simp add: read_process_def v r EProcess_init_example length_smss_field decode_smss)
qed

lemma process_dump_third:
  "read_process process_dump 0x7b8 = Inr (decoded_process 0x700 ''notepad.exe'' 1234 0x10 0x4b8)"
proof -
  have v: "vtop process_dump 0x700 = Inr 9984"
    using vtop_process_dump [of "0x700"] by simp
  have r: "read process_dump 9984 728
             = Inr (process_block 1234 notepad_field 0x10 0x4b8 one_day_ticks zero_ticks)"
    using read_process_dump_page [of "0x700" 728] by (simp add: page_block3)
  show ?thesis
    by (simp add: read_process_def v r EProcess_init_example length_notepad_field decode_notepad)
qed

lemma decoded_process_links [simp]:
  "flink (active_process_links (decoded_process base nm p fl bl)) = fl"
  by (simp add: decoded_process_def)

theorem pslist_circular_list_witness:
  "read_list_head process_dump = Inr \<lparr>flink = 0x1b8, blink = 0x7b8\<rparr> \<and>
   read_process process_dump 0x1b8 = Inr (decoded_process 0x100 ''System'' 4 0x4b8 0x10) \<and>
   read_process process_dump 0x4b8 = Inr (decoded_process 0x400 ''smss.exe'' 368 0x7b8 0x1b8) \<and>
   read_process process_dump 0x7b8 = Inr (decoded_process 0x700 ''notepad.exe'' 1234 0x10 0x4b8) \<and>
   process_head process_dump = 0x10 \<and>
   pslist process_dump =
     Some (Inr [decoded_process 0x100 ''System'' 4 0x4b8 0x10,
                decoded_process 0x400 ''smss.exe'' 368 0x7b8 0x1b8,
                decoded_process 0x700 ''notepad.exe'' 1234 0x10 0x4b8])"
proof -
  have h: "process_head process_dump = 0x10" by (rule process_dump_fields)
  have "pslist process_dump =
     Some (Inr [decoded_process 0x100 ''System'' 4 0x4b8 0x10,
                decoded_process 0x400 ''smss.exe'' 368 0x7b8 0x1b8,
                decoded_process 0x700 ''notepad.exe'' 1234 0x10 0x4b8])"
    by (rule pslist_circular_list [OF process_dump_head, THEN conjunct1])
      (simp_all add: h process_dump_first process_dump_second process_dump_third)
  with h process_dump_head process_dump_first process_dump_second process_dump_third
  show ?thesis by blast
qed

section \<open>The image name\<close>

lemma EProcess_init_image_name:
  assumes "EProcess_init rawdata base = Inr ps"
  shows "decode_image_name (py_slice rawdata 0x16c 0x17b) = Inr (image_name ps)"
proof -
  from assms obtain name0 name where
    u: "unpack_15s (py_slice rawdata 0x16c 0x17b) = Inr name0"
    and d: "decode_image_name name0 = Inr name"
    and n: "image_name ps = name"
    by (auto simp: EProcess_init_def rbind_eq_Inr)
  from u have "name0 = py_slice rawdata 0x16c 0x17b"
    by (simp add: unpack_15s_def split: if_splits)
  with d n show ?thesis by simp
qed

text \<open>
  C8, as stated, fails: the program removes every NUL byte of the field, not only the
  trailing ones. The field \<open>b"a\0b"\<close> followed by twelve NUL bytes is decoded as \<open>"ab"\<close>,
  where trimming the trailing NUL bytes keeps the NUL between the letters.
\<close>

theorem image_name_inner_nul:
  "decode_image_name inner_nul_field = Inr ''ab'' \<and>
   spec_decode_image_name inner_nul_field = Inr [CHR ''a'', CHR 0x00, CHR ''b'']"
  by code_simp

text \<open>
  C8, amended. The 15-byte image name of a process is decoded by removing every NUL byte
  and decoding the rest as ASCII; this is the trimming of trailing NUL bytes when no NUL
  byte comes before another byte. The whole decoding of the process fails when the field
  has a byte above 127, and \<open>b"notepad.exe"\<close> followed by four NUL bytes gives
  \<open>"notepad.exe"\<close>.
\<close>

theorem decode_image_name_removes_every_nul:
  "decode_image_name bs =
     (if \<forall>b \<in> set bs. uint b < 128
      then Inr (map (\<lambda>b. char_of (uint b)) (filter (\<lambda>b. b \<noteq> 0) bs))
      else Inl UnicodeDecodeError) \<and>
   (0 \<notin> set name \<longrightarrow>
      decode_image_name (name @ replicate n 0) = spec_decode_image_name (name @ replicate n 0)) \<and>
   (EProcess_init rawdata base = Inr ps \<longrightarrow>
      decode_image_name (py_slice rawdata 0x16c 0x17b) = Inr (image_name ps)) \<and>
   (0x17b \<le> length rawdata \<and> (\<exists>b \<in> set (py_slice rawdata 0x16c 0x17b). 128 \<le> uint b) \<longrightarrow>
      EProcess_init rawdata base = Inl UnicodeDecodeError) \<and>
   decode_image_name notepad_field = Inr ''notepad.exe''"
proof (intro conjI impI)
  show "decode_image_name bs =
     (if \<forall>b \<in> set bs. uint b < 128
      then Inr (map (\<lambda>b. char_of (uint b)) (filter (\<lambda>b. b \<noteq> 0) bs))
      else Inl UnicodeDecodeError)"
    by (rule decode_ascii_filter)
  show "decode_image_name (name @ replicate n 0) = spec_decode_image_name (name @ replicate n 0)"
    if "0 \<notin> set name"
    using trailing_nul_only [OF that, of n]
    by (simp add: decode_image_name_def spec_decode_image_name_def)
  show "decode_image_name (py_slice rawdata 0x16c 0x17b) = Inr (image_name ps)"
    if "EProcess_init rawdata base = Inr ps"
    using that by (rule EProcess_init_image_name)
  show "EProcess_init rawdata base = Inl UnicodeDecodeError"
    if "0x17b \<le> length rawdata \<and> (\<exists>b \<in> set (py_slice rawdata 0x16c 0x17b). 128 \<le> uint b)"
    using that EProcess_init_non_ascii by blast
  show "decode_image_name notepad_field = Inr ''notepad.exe''"
    by (rule decode_notepad)
qed

lemma non_ascii_block_field:
  "0x17b \<le> length non_ascii_block \<and>
   (\<exists>b \<in> set (py_slice non_ascii_block 0x16c 0x17b). 128 \<le> uint b)"
  by (simp add: non_ascii_block_def py_slice_def)

lemma notepad_ascii: "\<forall>b \<in> set notepad_field. uint b < 128"
  by (simp add: notepad_field_def)

lemma notepad_letters:
  "(0::byte) \<notin> set [0x6e, 0x6f, 0x74, 0x65, 0x70, 0x61, 0x64, 0x2e, 0x65, 0x78, 0x65]"
  by simp

theorem decode_image_name_removes_every_nul_witness:
  "list_all (\<lambda>b. uint b < 128) notepad_field \<and>
   decode_image_name notepad_field
     = Inr (map (\<lambda>b. char_of (uint b)) (filter (\<lambda>b. b \<noteq> 0) notepad_field)) \<and>
   (0::byte) \<notin> set [0x6e, 0x6f, 0x74, 0x65, 0x70, 0x61, 0x64, 0x2e, 0x65, 0x78, 0x65] \<and>
   decode_image_name notepad_field = spec_decode_image_name notepad_field \<and>
   EProcess_init (process_block 1234 notepad_field 0x10 0x4b8 one_day_ticks zero_ticks) 0x700
     = Inr (decoded_process 0x700 ''notepad.exe'' 1234 0x10 0x4b8) \<and>
   decode_image_name
     (py_slice (process_block 1234 notepad_field 0x10 0x4b8 one_day_ticks zero_ticks) 0x16c 0x17b)
     = Inr ''notepad.exe'' \<and>
   0x17b \<le> length non_ascii_block \<and>
   (\<exists>b \<in> set (py_slice non_ascii_block 0x16c 0x17b). 128 \<le> uint b) \<and>
   EProcess_init non_ascii_block 0 = Inl UnicodeDecodeError"
proof -
  let ?letters = "[0x6e, 0x6f, 0x74, 0x65, 0x70, 0x61, 0x64, 0x2e, 0x65, 0x78, 0x65] :: byte list"
  let ?block = "process_block 1234 notepad_field 0x10 0x4b8 one_day_ticks zero_ticks"
  note a = decode_image_name_removes_every_nul
    [of notepad_field ?letters 4 ?block "0x700" "decoded_process 0x700 ''notepad.exe'' 1234 0x10 0x4b8"]
  note b = decode_image_name_removes_every_nul
    [of notepad_field ?letters 4 non_ascii_block 0 "decoded_process 0x700 ''notepad.exe'' 1234 0x10 0x4b8"]
  have e: "EProcess_init ?block 0x700 = Inr (decoded_process 0x700 ''notepad.exe'' 1234 0x10 0x4b8)"
    by (rule EProcess_init_example [OF length_notepad_field decode_notepad]) simp_all
  have i: "image_name (decoded_process 0x700 ''notepad.exe'' 1234 0x10 0x4b8) = ''notepad.exe''"
    by (simp add: decoded_process_def)
  have f: "notepad_field = ?letters @ replicate 4 0"
    by (simp add: notepad_field_def)
  have 1: "decode_image_name notepad_field
     = Inr (map (\<lambda>b. char_of (uint b)) (filter (\<lambda>b. b \<noteq> 0) notepad_field))"
    using a notepad_ascii by simp
  have 2: "decode_image_name notepad_field = spec_decode_image_name notepad_field"
    using a notepad_letters unfolding f by blast
  have 3: "decode_image_name (py_slice ?block 0x16c 0x17b) = Inr ''notepad.exe''"
    using a e unfolding i by blast
  have 4: "EProcess_init non_ascii_block 0 = Inl UnicodeDecodeError"
    using b non_ascii_block_field by blast
  have 0: "list_all (\<lambda>b. uint b < 128) notepad_field"
    using notepad_ascii by (simp add: list_all_iff)
  from 0 1 notepad_letters 2 e 3 non_ascii_block_field 4 show ?thesis by blast
qed

section \<open>From the crash dump to the flat image and back\<close>

subsection \<open>Where a position inside a run is found\<close>

lemma run_member_bounds:
  "contiguous fp rs \<Longrightarrow> ascending lo rs \<Longrightarrow> page_aligned rs \<Longrightarrow> (f, s, l) \<in> set rs \<Longrightarrow>
   lo \<le> s \<and> fp \<le> f \<and> f - fp \<le> s - lo"
proof (induction rs arbitrary: fp lo)
  case Nil
  then show ?case by simp
next
  case (Cons r rs)
  obtain fh sh lh where r: "r = (fh, sh, lh)" by (cases r)
  from Cons.prems(1-3) have h: "fh = fp" "lo \<le> sh" "0 \<le> lh"
    and t: "contiguous (fp + lh) rs" "ascending (sh + lh) rs" "page_aligned rs"
    unfolding r by simp_all
  show ?case
  proof (cases "(f, s, l) = (fh, sh, lh)")
    case True
    with h show ?thesis by simp
  next
    case False
    with Cons.prems(4) have "(f, s, l) \<in> set rs" unfolding r by auto
    from Cons.IH [OF t this] h show ?thesis by linarith
  qed
qed

lemma read_scan_resolves:
  "contiguous fp rs \<Longrightarrow> ascending lo rs \<Longrightarrow> page_aligned rs \<Longrightarrow> (f, s, l) \<in> set rs \<Longrightarrow>
   s \<le> pos \<Longrightarrow> pos \<le> s + l \<Longrightarrow>
   \<exists>f0 s0 l0. read_scan pos rs cur = Inr (Some (f0, s0, l0)) \<and> f0 + (pos - s0) = f + (pos - s)"
proof (induction rs arbitrary: fp lo cur)
  case Nil
  then show ?case by simp
next
  case (Cons r rs)
  obtain fh sh lh where r: "r = (fh, sh, lh)" by (cases r)
  from Cons.prems(1-3) have h: "fh = fp" "lo \<le> sh" "0 \<le> lh"
    and t: "contiguous (fp + lh) rs" "ascending (sh + lh) rs" "page_aligned rs"
    unfolding r by simp_all
  show ?case
  proof (cases "(f, s, l) = (fh, sh, lh)")
    case True
    with Cons.prems(5,6) show ?thesis unfolding r by auto
  next
    case False
    with Cons.prems(4) have m: "(f, s, l) \<in> set rs" unfolding r by auto
    from run_member_bounds [OF t m] have b: "sh + lh \<le> s" "fp + lh \<le> f" "f - (fp + lh) \<le> s - (sh + lh)"
      by simp_all
    have ge: "sh \<le> pos" using b(1) h(3) Cons.prems(5) by linarith
    show ?thesis
    proof (cases "pos \<le> sh + lh")
      case True
      then have "s = sh + lh" "pos = s" using b(1) Cons.prems(5) by linarith+
      moreover from this b have "f = fp + lh" by linarith
      ultimately show ?thesis unfolding r using ge True h(1) by simp
    next
      case False
      from Cons.IH [OF t m Cons.prems(5,6), of "Some (fh, sh, lh)"]
      show ?thesis unfolding r using ge False by simp
    qed
  qed
qed

lemma runs_end_ge: "page_aligned rs \<Longrightarrow> contiguous fp rs \<Longrightarrow> fp \<le> runs_end fp rs"
proof (induction rs arbitrary: fp)
  case Nil
  then show ?case by simp
next
  case (Cons r rs)
  obtain fh sh lh where r: "r = (fh, sh, lh)" by (cases r)
  from Cons.prems have h: "fh = fp" "0 \<le> lh" and t: "page_aligned rs" "contiguous (fp + lh) rs"
    unfolding r by simp_all
  from Cons.IH [OF t] h show ?case unfolding r by auto
qed

lemma run_within_file:
  "contiguous fp rs \<Longrightarrow> page_aligned rs \<Longrightarrow> (f, s, l) \<in> set rs \<Longrightarrow> f + l \<le> runs_end fp rs"
proof (induction rs arbitrary: fp)
  case Nil
  then show ?case by simp
next
  case (Cons r rs)
  obtain fh sh lh where r: "r = (fh, sh, lh)" by (cases r)
  from Cons.prems(1,2) have h: "fh = fp" "0 \<le> lh" and t: "contiguous (fp + lh) rs" "page_aligned rs"
    unfolding r by simp_all
  show ?case
  proof (cases "(f, s, l) = (fh, sh, lh)")
    case True
    with runs_end_ge [OF t(2,1)] h show ?thesis unfolding r by auto
  next
    case False
    with Cons.prems(3) have "(f, s, l) \<in> set rs" unfolding r by auto
    from Cons.IH [OF t this] h show ?thesis unfolding r by auto
  qed
qed

lemma file_read_inside:
  assumes "0 \<le> p" and "0 \<le> n"
  shows "file_read file p n = Inr (take (nat n) (drop (nat p) file))"
  using assms by (simp add: file_read_def)

lemma read_in_run:
  assumes c: "cls crash = CrashDump" "contiguous fp (ranges crash)" "ascending lo (ranges crash)"
      "page_aligned (ranges crash)" "0 \<le> fp"
    and m: "(f, s, l) \<in> set (ranges crash)"
    and p: "s \<le> pos" "0 \<le> n" "pos + n \<le> s + l"
  shows "read crash pos n = Inr (take (nat n) (drop (nat (f + (pos - s))) (mem crash)))"
proof -
  have "pos \<le> s + l" using p by linarith
  from read_scan_resolves [OF c(2-4) m p(1) this, of None]
  obtain f0 s0 l0 where r: "read_scan pos (ranges crash) None = Inr (Some (f0, s0, l0))"
    and e: "f0 + (pos - s0) = f + (pos - s)"
    by blast
  from run_member_bounds [OF c(2-4) m] have "fp \<le> f" by simp
  then have "0 \<le> f + (pos - s)" using c(5) p(1) by linarith
  then show ?thesis
    by (simp add: read_def c(1) CrashDump_read_def r e file_read_inside p(2))
qed

lemma zero_fill_aligned:
  "zero_fill fpos (fpos + 4096 * int k) raw = (fpos + 4096 * int k, raw @ replicate (4096 * k) 0)"
proof (induction k arbitrary: fpos raw)
  case 0
  show ?case by (subst zero_fill.simps) simp
next
  case (Suc k)
  have a: "fpos + 4096 * int (Suc k) = (fpos + 4096) + 4096 * int k" by simp
  have b: "replicate (4096 * Suc k) (0::byte) = zpage @ replicate (4096 * k) 0"
    by (simp add: zpage_def flip: replicate_add)
  have "zero_fill fpos (fpos + 4096 * int (Suc k)) raw
          = zero_fill (fpos + 4096) ((fpos + 4096) + 4096 * int k) (raw @ zpage)"
    by (subst zero_fill.simps) (simp add: add.assoc)
  then show ?case
    unfolding Suc.IH b by simp
qed

lemma zero_fill_to:
  assumes "fpos \<le> saddr" and "fpos mod 4096 = 0" and "saddr mod 4096 = 0"
  shows "zero_fill fpos saddr raw = (saddr, raw @ replicate (nat (saddr - fpos)) 0)"
proof -
  have "(saddr - fpos) mod 4096 = 0"
    using assms(2,3) by (simp add: mod_eq_0_iff_dvd)
  then obtain q where q: "saddr - fpos = 4096 * q" by (auto simp: mod_eq_0_iff_dvd)
  then have "0 \<le> q" using assms(1) by simp
  then obtain k where k: "q = int k" using nonneg_int_cases by blast
  have s: "saddr = fpos + 4096 * int k" using q k by simp
  have n: "nat (saddr - fpos) = 4096 * k" unfolding s by (simp add: nat_mult_distrib)
  show ?thesis unfolding n unfolding s by (rule zero_fill_aligned)
qed

subsection \<open>What the conversion writes\<close>

lemma copy_pages_run:
  assumes c: "cls crash = CrashDump" "contiguous fp (ranges crash)" "ascending lo (ranges crash)"
      "page_aligned (ranges crash)" "0 \<le> fp"
    and m: "(f, s, l) \<in> set (ranges crash)"
  shows "0 \<le> i0 \<Longrightarrow> (i0 + int k) * 4096 \<le> l \<Longrightarrow>
     copy_pages crash s [i0 .. i0 + int k - 1] fpos raw
       = Inr (fpos + 4096 * int k,
              raw @ take (4096 * k) (drop (nat (f + 4096 * i0)) (mem crash)))"
proof (induction k arbitrary: i0 fpos raw)
  case 0
  then show ?case by simp
next
  case (Suc k)
  have u: "[i0 .. i0 + int (Suc k) - 1] = i0 # [i0 + 1 .. (i0 + 1) + int k - 1]"
    by (subst upto_rec1) (simp_all add: add.assoc)
  have fp: "fp \<le> f" using run_member_bounds [OF c(2-4) m] by simp
  have r: "read crash (s + push_bit 12 i0) 4096
             = Inr (take 4096 (drop (nat (f + 4096 * i0)) (mem crash)))"
  proof -
    have "s \<le> s + push_bit 12 i0" "s + push_bit 12 i0 + 4096 \<le> s + l"
      using Suc.prems by (simp_all add: push_bit_eq_mult)
    from read_in_run [OF c m this(1) _ this(2)]
    show ?thesis by (simp add: push_bit_eq_mult mult.commute)
  qed
  have n: "nat (f + 4096 * (i0 + 1)) = 4096 + nat (f + 4096 * i0)"
    using fp c(5) Suc.prems(1) by (simp add: nat_add_distrib distrib_left)
  have ih: "copy_pages crash s [i0 + 1 .. (i0 + 1) + int k - 1] (fpos + 4096)
              (raw @ take 4096 (drop (nat (f + 4096 * i0)) (mem crash)))
            = Inr (fpos + 4096 + 4096 * int k,
                   (raw @ take 4096 (drop (nat (f + 4096 * i0)) (mem crash))) @
                   take (4096 * k) (drop (nat (f + 4096 * (i0 + 1))) (mem crash)))"
    using Suc.prems by (intro Suc.IH) (simp_all add: algebra_simps)
  have t: "take 4096 (drop (nat (f + 4096 * i0)) (mem crash)) @
           take (4096 * k) (drop (nat (f + 4096 * (i0 + 1))) (mem crash))
           = take (4096 * Suc k) (drop (nat (f + 4096 * i0)) (mem crash))"
  proof -
    have "4096 * Suc k = 4096 + 4096 * k" by simp
    then show ?thesis
      unfolding n by (simp only: take_add drop_drop)
  qed
  show ?case
    unfolding u copy_pages.simps r sum.case ih using t by (simp add: algebra_simps)
qed

lemma crash_to_raw_loop_replayed:
  assumes c: "cls crash = CrashDump" "contiguous fp (ranges crash)" "ascending lo0 (ranges crash)"
      "page_aligned (ranges crash)" "0 \<le> fp"
  shows "set rs \<subseteq> set (ranges crash) \<Longrightarrow> ascending lo rs \<Longrightarrow> page_aligned rs \<Longrightarrow>
     lo mod 4096 = 0 \<Longrightarrow>
     crash_to_raw_loop crash rs lo raw = Inr (raw @ replayed (mem crash) lo rs)"
proof (induction rs arbitrary: lo raw)
  case Nil
  show ?case by simp
next
  case (Cons r rs)
  obtain f s l where r: "r = (f, s, l)" by (cases r)
  from Cons.prems have m: "(f, s, l) \<in> set (ranges crash)" and sub: "set rs \<subseteq> set (ranges crash)"
    and a: "lo \<le> s" "ascending (s + l) rs"
    and p: "0 \<le> s" "s mod 4096 = 0" "0 \<le> l" "l mod 4096 = 0" "page_aligned rs"
    unfolding r by simp_all
  have z: "zero_fill lo s raw = (s, raw @ replicate (nat (s - lo)) 0)"
    using a(1) Cons.prems(4) p(2) by (rule zero_fill_to)
  obtain q where q: "l = 4096 * q" using p(4) by (auto simp: mod_eq_0_iff_dvd)
  then have "0 \<le> q" using p(3) by simp
  then obtain k where k: "q = int k" using nonneg_int_cases by blast
  have d: "drop_bit 12 l = int k" unfolding q k by (simp add: drop_bit_eq_div)
  have nl: "nat l = 4096 * k" unfolding q k by (simp add: nat_mult_distrib)
  have cp: "copy_pages crash s [0 .. drop_bit 12 l - 1] s (raw @ replicate (nat (s - lo)) 0)
              = Inr (s + l, (raw @ replicate (nat (s - lo)) 0) @
                      take (nat l) (drop (nat f) (mem crash)))"
    using copy_pages_run [OF c m, of 0 k s "raw @ replicate (nat (s - lo)) 0"]
    unfolding d nl by (simp add: q k)
  have al: "(s + l) mod 4096 = 0" using p(2,4) by (simp add: mod_eq_0_iff_dvd)
  show ?case
    unfolding r crash_to_raw_loop.simps z prod.case cp sum.case
      Cons.IH [OF sub a(2) p(5) al]
    by simp
qed

lemma take_drop_take:
  assumes "d + n \<le> k" and "k \<le> length xs"
  shows "take n (drop d (take k xs @ ys)) = take n (drop d xs)"
proof -
  have "drop d (take k xs @ ys) = take (k - d) (drop d xs) @ ys"
    using assms by (simp add: drop_take)
  moreover have "n \<le> length (take (k - d) (drop d xs))"
    using assms by simp
  ultimately show ?thesis
    using assms(1) by (simp add: min_absorb1)
qed

lemma replayed_run:
  "contiguous fp rs \<Longrightarrow> ascending lo rs \<Longrightarrow> page_aligned rs \<Longrightarrow> 0 \<le> fp \<Longrightarrow>
   runs_end fp rs \<le> int (length file) \<Longrightarrow> (f, s, l) \<in> set rs \<Longrightarrow> int d + int n \<le> l \<Longrightarrow>
   take n (drop (nat (s - lo) + d) (replayed file lo rs)) = take n (drop (nat f + d) file)"
proof (induction rs arbitrary: fp lo)
  case Nil
  then show ?case by simp
next
  case (Cons r rs)
  obtain fh sh lh where r: "r = (fh, sh, lh)" by (cases r)
  from Cons.prems(1-3,5) have h: "fh = fp" "lo \<le> sh" "0 \<le> lh"
    and t: "contiguous (fp + lh) rs" "ascending (sh + lh) rs" "page_aligned rs"
    and e: "runs_end (fp + lh) rs \<le> int (length file)"
    unfolding r by simp_all
  let ?Z = "replicate (nat (sh - lo)) (0::byte)"
  let ?B = "take (nat lh) (drop (nat fp) file)"
  have "fp + lh \<le> int (length file)"
    using runs_end_ge [OF t(3,1)] e by linarith
  then have lB: "length ?B = nat lh"
    using Cons.prems(4) h(3) by simp
  show ?case
  proof (cases "(f, s, l) = (fh, sh, lh)")
    case True
    then have eq: "f = fp" "s = sh" "l = lh" using h(1) by simp_all
    have dn: "d + n \<le> nat lh" using Cons.prems(7) unfolding eq by linarith
    have "take n (drop (nat (sh - lo) + d) (?Z @ ?B @ replayed file (sh + lh) rs))
            = take n (drop d (?B @ replayed file (sh + lh) rs))"
      by simp
    also have "\<dots> = take n (drop d (drop (nat fp) file))"
      using dn lB by (intro take_drop_take) simp_all
    finally show ?thesis
      unfolding r replayed.simps eq h(1) by (simp add: add.commute)
  next
    case False
    with Cons.prems(6) have m: "(f, s, l) \<in> set rs" unfolding r by auto
    from run_member_bounds [OF t m] have b: "sh + lh \<le> s" by simp
    have n: "nat (s - lo) + d = length ?Z + (length ?B + (nat (s - (sh + lh)) + d))"
      unfolding lB using b h(2,3) by simp
    have "0 \<le> fp + lh" using Cons.prems(4) h(3) by simp
    from Cons.IH [OF t this e m Cons.prems(7)]
    show ?thesis
      unfolding r replayed.simps h(1) n by (simp only: drop_append length_replicate diff_self_eq_0
          drop_all [OF order_refl] append_Nil lB add_diff_cancel_left' drop_drop
          length_take min_absorb2 length_drop) (simp add: lB)
  qed
qed

subsection \<open>The round trip\<close>

lemma crash_to_raw_replayed:
  assumes "CrashDump_init file archc = Inr crash" and "ascending 0 (ranges crash)"
  shows "crash_to_raw crash [] = Inr (replayed file 0 (ranges crash))"
proof -
  from CrashDump_init_wf [OF assms(1)]
  have c: "contiguous 4096 (ranges crash)" "page_aligned (ranges crash)" "mem crash = file"
    "cls crash = CrashDump"
    by simp_all
  show ?thesis
    using crash_to_raw_loop_replayed [OF c(4) c(1) assms(2) c(2) _ subset_refl assms(2) c(2),
        where raw = "[]"]
    by (simp add: crash_to_raw_def c(3))
qed

text \<open>
  C9, amended. Round trip, for a dump built from a file whose runs are declared in
  ascending order without overlap and whose pages are all present in the file: for every
  physical address \<open>pos\<close> inside a run, and every length that stays inside that run,
  \<open>crash_to_raw\<close> returns a flat image, and reading \<open>pos\<close> from the flat image gives the
  same bytes as reading it from the crash dump.
\<close>

theorem crash_to_raw_roundtrip:
  assumes "CrashDump_init file archc = Inr crash"
    and "ascending 0 (ranges crash)"
    and "runs_end 4096 (ranges crash) \<le> int (length file)"
    and "(fpos, saddr, rlength) \<in> set (ranges crash)"
    and "saddr \<le> pos" and "0 \<le> len" and "pos + len \<le> saddr + rlength"
  shows "\<exists>flat bytes. crash_to_raw crash [] = Inr flat \<and> read crash pos len = Inr bytes \<and>
           read (RawDump_init flat archc) pos len = Inr bytes"
proof -
  from CrashDump_init_wf [OF assms(1)]
  have c: "contiguous 4096 (ranges crash)" "page_aligned (ranges crash)" "mem crash = file"
    "cls crash = CrashDump"
    by simp_all
  note ctx = c(4) c(1) assms(2) c(2)
  let ?flat = "replayed file 0 (ranges crash)"
  have fl: "crash_to_raw crash [] = Inr ?flat"
    using assms(1,2) by (rule crash_to_raw_replayed)
  have b: "0 \<le> saddr" "4096 \<le> fpos"
    using run_member_bounds [OF c(1) assms(2) c(2) assms(4)] by simp_all
  have rc: "read crash pos len = Inr (take (nat len) (drop (nat (fpos + (pos - saddr))) file))"
    using read_in_run [OF ctx _ assms(4,5,6,7)] by (simp add: c(3))
  have dn: "int (nat (pos - saddr)) + int (nat len) \<le> rlength"
    using assms(5,6,7) by simp
  have "take (nat len) (drop (nat (saddr - 0) + nat (pos - saddr)) ?flat)
          = take (nat len) (drop (nat fpos + nat (pos - saddr)) file)"
    by (rule replayed_run [OF c(1) assms(2) c(2) _ assms(3,4) dn]) simp
  moreover have "nat (saddr - 0) + nat (pos - saddr) = nat pos"
    using b(1) assms(5) by simp
  moreover have "nat fpos + nat (pos - saddr) = nat (fpos + (pos - saddr))"
    using b(2) assms(5) by simp
  ultimately have e: "take (nat len) (drop (nat pos) ?flat)
          = take (nat len) (drop (nat (fpos + (pos - saddr))) file)"
    by simp
  have "0 \<le> pos" using b(1) assms(5) by simp
  then have "read (RawDump_init ?flat archc) pos len = Inr (take (nat len) (drop (nat pos) ?flat))"
    using assms(6) by (simp add: read_RawDump RawDump_init_def file_read_inside)
  with fl rc e show ?thesis by simp
qed

lemma replayed_two_run: "replayed two_run_file 0 (ranges two_run_dump) = two_run_flat"
  by (simp add: two_run_dump_def two_run_file_def two_run_flat_def length_crash_header)

lemma two_run_wf:
  "ascending 0 (ranges two_run_dump)"
  "runs_end 4096 (ranges two_run_dump) \<le> int (length two_run_file)"
  "(12288, 16384, 4096) \<in> set (ranges two_run_dump)"
  by (simp_all add: two_run_dump_def two_run_file_def length_crash_header)

lemma two_run_read_page4: "read two_run_dump 16400 4 = Inr (replicate 4 0x44)"
  by (simp add: read_def two_run_dump_def CrashDump_read_def two_run_file_read)

lemma two_run_flat_read_page4:
  "read (RawDump_init two_run_flat ArchX86) 16400 4 = Inr (replicate 4 0x44)"
  by (simp add: read_RawDump RawDump_init_def file_read_def two_run_flat_def)

theorem crash_to_raw_roundtrip_witness:
  "CrashDump_init two_run_file ArchX86 = Inr two_run_dump \<and>
   ascending 0 (ranges two_run_dump) \<and>
   runs_end 4096 (ranges two_run_dump) \<le> int (length two_run_file) \<and>
   (12288, 16384, 4096) \<in> set (ranges two_run_dump) \<and>
   (16384::int) \<le> 16400 \<and> (0::int) \<le> 4 \<and> (16400::int) + 4 \<le> 16384 + 4096 \<and>
   crash_to_raw two_run_dump [] = Inr two_run_flat \<and>
   read two_run_dump 16400 4 = Inr (replicate 4 0x44) \<and>
   read (RawDump_init two_run_flat ArchX86) 16400 4 = Inr (replicate 4 0x44)"
proof -
  have h: "(16384::int) \<le> 16400" "(0::int) \<le> 4" "(16400::int) + 4 \<le> 16384 + 4096"
    by simp_all
  from crash_to_raw_roundtrip [OF CrashDump_init_two_run two_run_wf h]
  obtain flat bytes where f: "crash_to_raw two_run_dump [] = Inr flat"
    and r: "read two_run_dump 16400 4 = Inr bytes"
    and g: "read (RawDump_init flat ArchX86) 16400 4 = Inr bytes"
    by blast
  have "crash_to_raw two_run_dump [] = Inr two_run_flat"
    using crash_to_raw_replayed [OF CrashDump_init_two_run two_run_wf(1)]
    by (simp add: replayed_two_run)
  with f have fl: "flat = two_run_flat" by simp
  from r have bv: "bytes = replicate 4 0x44" by (simp add: two_run_read_page4)
  from f r g CrashDump_init_two_run two_run_wf h show ?thesis
    unfolding fl bv by blast
qed

subsection \<open>Where the round trip does not hold\<close>

lemma header_truncated: "take 4096 truncated_file = crash_header 0x1000 0 [(1, 2), (4, 1)]"
  by (simp add: truncated_file_def length_crash_header)

lemma CrashDump_init_truncated: "CrashDump_init truncated_file ArchX86 = Inr truncated_dump"
  unfolding CrashDump_init_def Let_def header_truncated two_run_dirbase two_run_process_head
    two_run_runs
  by (simp add: py_slice_def unpack_2L_pack two_run_parse_runs truncated_dump_def)

lemma header_descending: "take 4096 descending_file = crash_header 0 0 [(2, 1), (1, 1)]"
  by (simp add: descending_file_def length_crash_header)

lemma descending_dirbase:
  "unpack_L (py_slice (crash_header 0 0 [(2, 1), (1, 1)]) 0x10 0x14) = Inr 0"
  by (simp add: crash_header_def py_slice_def unpack_pack_L)

lemma descending_process_head:
  "unpack_L (py_slice (crash_header 0 0 [(2, 1), (1, 1)]) 0x1c 0x20) = Inr 0"
  by (simp add: crash_header_def py_slice_def unpack_pack_L)

lemma descending_runs:
  "py_slice (crash_header 0 0 [(2, 1), (1, 1)]) 0x64 0x320
     = pack_L 2 @ pack_L 0 @ pack_L 2 @ pack_L 1 @ pack_L 1 @ pack_L 1 @ replicate 676 0"
  by (simp add: crash_header_def py_slice_def)

lemma descending_parse_runs:
  "parse_runs (pack_L 2 @ pack_L 0 @ pack_L 2 @ pack_L 1 @ pack_L 1 @ pack_L 1 @ replicate 676 0)
      2 1 4096 [] = Inr [(4096, 8192, 4096), (8192, 4096, 4096)]"
  by (simp add: parse_runs.simps py_slice_def unpack_2L_pack)

lemma CrashDump_init_descending: "CrashDump_init descending_file ArchX86 = Inr descending_dump"
  unfolding CrashDump_init_def Let_def header_descending descending_dirbase
    descending_process_head descending_runs
  by (simp add: py_slice_def unpack_2L_pack descending_parse_runs descending_dump_def)

lemma two_run_read_across: "read two_run_dump 12284 8 = Inr (replicate 4 0x22 @ replicate 4 0x44)"
  by (simp add: read_def two_run_dump_def CrashDump_read_def two_run_file_read)

lemma two_run_flat_read_across:
  "read (RawDump_init two_run_flat ArchX86) 12284 8 = Inr (replicate 4 0x22 @ replicate 4 0)"
  by (simp add: read_RawDump RawDump_init_def file_read_def two_run_flat_def)

lemma crash_to_raw_two_run: "crash_to_raw two_run_dump [] = Inr two_run_flat"
  using crash_to_raw_replayed [OF CrashDump_init_two_run two_run_wf(1)]
  by (simp add: replayed_two_run)

lemma truncated_ascending: "ascending 0 (ranges truncated_dump)"
  by (simp add: truncated_dump_def)

lemma replayed_truncated: "replayed truncated_file 0 (ranges truncated_dump) = truncated_flat"
  by (simp add: truncated_dump_def truncated_file_def truncated_flat_def length_crash_header)

lemma crash_to_raw_truncated: "crash_to_raw truncated_dump [] = Inr truncated_flat"
  using crash_to_raw_replayed [OF CrashDump_init_truncated truncated_ascending]
  by (simp add: replayed_truncated)

lemma truncated_read: "read truncated_dump 8192 4 = Inr []"
  by (simp add: read_def truncated_dump_def CrashDump_read_def file_read_def truncated_file_def
      length_crash_header)

lemma truncated_flat_read:
  "read (RawDump_init truncated_flat ArchX86) 8192 4 = Inr (replicate 4 0)"
  by (simp add: read_RawDump RawDump_init_def file_read_def truncated_flat_def)

lemma descending_read: "read descending_dump 8192 4 = Inr (replicate 4 0x22)"
  by (simp add: read_def descending_dump_def CrashDump_read_def file_read_def descending_file_def
      length_crash_header)

lemma descending_read_page2:
  "read descending_dump 8192 4096 = Inr (replicate 4096 0x22)"
  by (simp add: read_def descending_dump_def CrashDump_read_def file_read_def descending_file_def
      length_crash_header)

lemma descending_read_page1:
  "read descending_dump 4096 4096 = Inl (OutsideRangesException 4096 8192)"
  by (simp add: read_def descending_dump_def CrashDump_read_def)

lemma zero_fill_done: "saddr \<le> fpos \<Longrightarrow> zero_fill fpos saddr raw = (fpos, raw)"
  by (subst zero_fill.simps) simp

lemma crash_to_raw_descending:
  "crash_to_raw descending_dump [] = Inl (OutsideRangesException 4096 8192)"
proof -
  have z1: "zero_fill 0 8192 [] = (8192, [] @ replicate (nat (8192 - 0)) 0)"
    by (rule zero_fill_to) simp_all
  have u: "[0 .. drop_bit 12 (4096::int) - 1] = [0]"
    by (simp add: drop_bit_eq_div)
  have c1: "copy_pages descending_dump 8192 [0] 8192 ([] @ replicate (nat (8192 - 0)) 0)
              = Inr (12288, ([] @ replicate (nat (8192 - 0)) 0) @ replicate 4096 0x22)"
    using descending_read_page2 by simp
  have z2: "zero_fill 12288 4096 raw = (12288, raw)" for raw
    by (rule zero_fill_done) simp
  have c2: "copy_pages descending_dump 4096 [0] 12288 raw
              = Inl (OutsideRangesException 4096 8192)" for raw
    using descending_read_page1 by simp
  have r: "ranges descending_dump = [(4096, 8192, 4096), (8192, 4096, 4096)]"
    by (simp add: descending_dump_def)
  show ?thesis
    unfolding crash_to_raw_def r crash_to_raw_loop.simps z1 prod.case u c1 sum.case z2 c2
    by (rule refl)
qed

text \<open>
  C9, as stated for every dump and every read, fails in three ways. A read of 8 bytes at
  12284, an address inside the first run of the dump of two runs, goes on into the bytes of
  the next run in the crash dump and into the zeros of the gap in the flat image. On the
  file that has lost its pages, address 8192 of the first run gives no bytes from the
  crash dump and four zeros from the flat image. With the runs declared in descending
  order, address 8192 is read from the crash dump, but the conversion itself ends with
  \<open>OutsideRangesException\<close>.
\<close>

theorem crash_to_raw_roundtrip_fails:
  "CrashDump_init two_run_file ArchX86 = Inr two_run_dump \<and>
   crash_to_raw two_run_dump [] = Inr two_run_flat \<and>
   read two_run_dump 12284 8 = Inr (replicate 4 0x22 @ replicate 4 0x44) \<and>
   read (RawDump_init two_run_flat ArchX86) 12284 8 = Inr (replicate 4 0x22 @ replicate 4 0) \<and>
   CrashDump_init truncated_file ArchX86 = Inr truncated_dump \<and>
   crash_to_raw truncated_dump [] = Inr truncated_flat \<and>
   read truncated_dump 8192 4 = Inr [] \<and>
   read (RawDump_init truncated_flat ArchX86) 8192 4 = Inr (replicate 4 0) \<and>
   CrashDump_init descending_file ArchX86 = Inr descending_dump \<and>
   read descending_dump 8192 4 = Inr (replicate 4 0x22) \<and>
   crash_to_raw descending_dump [] = Inl (OutsideRangesException 4096 8192)"
  by (intro conjI CrashDump_init_two_run crash_to_raw_two_run two_run_read_across
      two_run_flat_read_across CrashDump_init_truncated crash_to_raw_truncated truncated_read
      truncated_flat_read CrashDump_init_descending descending_read crash_to_raw_descending)

end
